theory Spec2Isabelle
  imports Main "HOL-Library.Word"
begin

section \<open>Data model of clients/simple-egl.c\<close>

text \<open>
  Pointers to library objects (Wayland proxies, EGL and GL objects) are handles; a
  pointer field is a \<open>handle option\<close>, with \<open>None\<close> for NULL. \<open>uint32_t\<close> and
  \<open>int32_t\<close> are 32-bit words; a signed one is read with \<open>sint\<close>.
\<close>

type_synonym handle = nat
type_synonym uint32 = "32 word"
type_synonym int32 = "32 word"

text \<open>
  \<open>struct display\<close>. The back pointer \<open>window\<close> is not a field here: the program has
  one display and one window, and the state below holds both.
\<close>

record display =
  display :: "handle option"
  compositor :: "handle option"
  shell :: "handle option"
  input :: "handle option"
  egl_dpy :: "handle option"
  egl_ctx :: "handle option"
  egl_conf :: "handle option"
  mask_d :: uint32

text \<open>
  \<open>struct window\<close>. The fields \<open>gl.fbo\<close> and \<open>gl.color_rbo\<close> are never read or
  written and are left out. \<open>fullscreen\<close> and \<open>configured\<close> are C ints that only ever
  hold 0 or 1 and are only tested for truth.
\<close>

record window =
  geometry_width :: int32
  geometry_height :: int32
  gl_program :: nat
  gl_rotation_uniform :: nat
  gl_pos :: nat
  gl_col :: nat
  native :: "handle option"
  surface :: "handle option"
  shell_surface :: "handle option"
  egl_surface :: "handle option"
  callback :: "handle option"
  fullscreen :: bool
  configured :: bool

subsection \<open>The libraries the program calls\<close>

text \<open>
  The calls into libwayland-client, EGL and GLES2 are recorded, in order, in a trace.
  A call that creates an object records the handle it returned. The status queries
  \<open>glGetShaderiv\<close> and \<open>glGetProgramiv\<close> leave no entry: the environment answers
  them. The rotation matrix
  that \<open>redraw\<close> uploads is a function of the angle in whole degrees; the trace records
  that integer (the conversion to radians and the sines and cosines are floating point
  and are not modelled).
\<close>

datatype shader_type = GL_FRAGMENT_SHADER | GL_VERTEX_SHADER

datatype wl_request =
    Wl_display_connect handle
  | Wl_display_add_global_listener
  | Wl_display_get_fd
  | Wl_display_iterate uint32
  | Wl_display_bind uint32 string handle
  | Wl_display_flush
  | Wl_display_disconnect
  | Wl_input_device_add_listener handle
  | Wl_input_device_attach handle uint32
  | Wl_compositor_create_surface handle handle
  | Wl_compositor_destroy handle
  | Wl_shell_get_shell_surface handle "handle option" handle
  | Wl_shell_destroy handle
  | Wl_shell_surface_add_listener handle
  | Wl_shell_surface_set_fullscreen handle
  | Wl_shell_surface_set_toplevel handle
  | Wl_shell_surface_pong handle uint32
  | Wl_shell_surface_destroy handle
  | Wl_surface_frame handle handle
  | Wl_surface_destroy handle
  | Wl_callback_add_listener handle
  | Wl_callback_destroy handle
  | Wl_egl_window_create handle int32 int32 handle
  | Wl_egl_window_destroy handle

datatype egl_call =
    EglGetDisplay handle
  | EglInitialize
  | EglBindAPI
  | EglChooseConfig uint32 handle
  | EglCreateContext handle
  | EglCreateWindowSurface "handle option" handle
  | EglMakeCurrent "handle option" "handle option"
  | EglSwapBuffers "handle option"
  | EglTerminate
  | EglReleaseThread

datatype gl_call =
    GlViewport int32 int32
  | GlCreateShader shader_type nat
  | GlShaderSource nat
  | GlCompileShader nat
  | GlCreateProgram nat
  | GlAttachShader nat nat
  | GlLinkProgram nat
  | GlUseProgram nat
  | GlGetShaderInfoLog nat
  | GlGetProgramInfoLog nat
  | GlBindAttribLocation nat nat string
  | GlGetUniformLocation nat string nat
  | GlUniformMatrix4fv nat uint32
  | GlClearColor
  | GlClear
  | GlVertexAttribPointer nat nat
  | GlEnableVertexAttribArray nat
  | GlDrawArrays nat
  | GlDisableVertexAttribArray nat
  | GlFlush

datatype request =
    Wl wl_request
  | Egl egl_call
  | Gl gl_call
  | Sigaction_SIGINT
  | Stderr string

text \<open>
  What the libraries answer is not decided by the program. The environment says, for
  each call whose result the program checks, whether it succeeds, and holds the info
  logs of the shader compiler and of the linker.
\<close>

record environment =
  connect_ok :: bool
  egl_get_display_ok :: bool
  egl_initialize_ok :: bool
  egl_bind_api_ok :: bool
  egl_choose_config_ok :: bool
  egl_create_context_ok :: bool
  egl_make_current_ok :: bool
  gl_create_shader_ok :: bool
  gl_compile_ok :: bool
  gl_link_ok :: bool
  gl_shader_log :: string
  gl_program_log :: string

text \<open>
  The state of the process: the two structs of \<open>main\<close>, the static variable
  \<open>start_time\<close> of \<open>redraw\<close>, the global \<open>running\<close>, whether the SIGINT handler is
  installed, and the libraries' side: the next fresh handle, the trace and the
  environment.
\<close>

record state =
  disp :: display
  win :: window
  start_time :: uint32
  running :: bool
  sigint_handler :: bool
  next_id :: handle
  trace :: "request list"
  env :: environment

text \<open>
  The ways the process stops without returning from \<open>main\<close>: a failed \<open>assert\<close>,
  \<open>exit(1)\<close>, a library call on a NULL object, SIGINT before the handler is installed
  (or a second SIGINT, since the handler resets itself), and waiting for events that
  never come. The error carries the state the process stopped in.
\<close>

datatype error = Assert_failed | Exit_1 | Null_object | Killed | Blocked

type_synonym 'a result = "(error \<times> state) + 'a"

definition bind_r :: "'a result \<Rightarrow> ('a \<Rightarrow> 'b result) \<Rightarrow> 'b result" where
  "bind_r r f = (case r of Inl e \<Rightarrow> Inl e | Inr x \<Rightarrow> f x)"

definition emit :: "request \<Rightarrow> state \<Rightarrow> state" where
  "emit r st = st\<lparr>trace := trace st @ [r]\<rparr>"

definition emits :: "request list \<Rightarrow> state \<Rightarrow> state" where
  "emits rs st = st\<lparr>trace := trace st @ rs\<rparr>"

text \<open>A call that creates an object: the fresh handle, recorded by \<open>mk\<close>.\<close>

definition create :: "(handle \<Rightarrow> request) \<Rightarrow> state \<Rightarrow> handle \<times> state" where
  "create mk st =
     (next_id st, st\<lparr>next_id := Suc (next_id st), trace := trace st @ [mk (next_id st)]\<rparr>)"

text \<open>A request on a proxy: a NULL proxy is dereferenced by the library.\<close>

definition on_object :: "handle option \<Rightarrow> (handle \<Rightarrow> state \<Rightarrow> 'a) \<Rightarrow> state \<Rightarrow> 'a result" where
  "on_object p f st = (case p of None \<Rightarrow> Inl (Null_object, st) | Some h \<Rightarrow> Inr (f h st))"

definition assert :: "bool \<Rightarrow> state \<Rightarrow> state result" where
  "assert b st = (if b then Inr st else Inl (Assert_failed, st))"

text \<open>A call that returns a new object, or NULL (0) when the environment refuses.\<close>

definition create_opt :: "bool \<Rightarrow> (handle \<Rightarrow> request) \<Rightarrow> state \<Rightarrow> handle option \<times> state" where
  "create_opt ok mk st = (if ok then (let (h, st') = create mk st in (Some h, st')) else (None, st))"

text \<open>
  The callbacks outstanding after a trace: \<open>wl_surface_frame\<close> creates one,
  \<open>wl_callback_destroy\<close> releases one.
\<close>

fun callback_step :: "handle list \<Rightarrow> request \<Rightarrow> handle list" where
  "callback_step cs (Wl (Wl_surface_frame s c)) = cs @ [c]"
| "callback_step cs (Wl (Wl_callback_destroy c)) = removeAll c cs"
| "callback_step cs r = cs"

definition callbacks_outstanding :: "request list \<Rightarrow> handle list" where
  "callbacks_outstanding tr = foldl callback_step [] tr"

section \<open>The program\<close>

definition init_egl :: "uint32 \<Rightarrow> state \<Rightarrow> state result" where
  "init_egl alpha_size st0 =
     (let (dpy, st) = create_opt (egl_get_display_ok (env st0)) (\<lambda>h. Egl (EglGetDisplay h)) st0;
          st = st\<lparr>disp := (disp st)\<lparr>egl_dpy := dpy\<rparr>\<rparr>
      in bind_r (assert (dpy \<noteq> None) st) (\<lambda>st.
         let ret = egl_initialize_ok (env st); st = emit (Egl EglInitialize) st
         in bind_r (assert ret st) (\<lambda>st.
         let ret = egl_bind_api_ok (env st); st = emit (Egl EglBindAPI) st
         in bind_r (assert ret st) (\<lambda>st.
         let (conf, st) = create_opt (egl_choose_config_ok (env st))
                            (\<lambda>h. Egl (EglChooseConfig alpha_size h)) st;
             st = st\<lparr>disp := (disp st)\<lparr>egl_conf := conf\<rparr>\<rparr>
         in bind_r (assert (conf \<noteq> None) st) (\<lambda>st.
         let (ctx, st) = create_opt (egl_create_context_ok (env st))
                           (\<lambda>h. Egl (EglCreateContext h)) st;
             st = st\<lparr>disp := (disp st)\<lparr>egl_ctx := ctx\<rparr>\<rparr>
         in assert (ctx \<noteq> None) st)))))"

definition fini_egl :: "state \<Rightarrow> state" where
  "fini_egl st = emits [Egl (EglMakeCurrent None None), Egl EglTerminate, Egl EglReleaseThread] st"

text \<open>
  \<open>create_shader\<close>: the shader name, or the process has stopped. The log is read into
  a buffer of 1000 bytes, so at most 999 characters of it come back, and \<open>%*s\<close> with
  their number for the width prints just them.
\<close>

definition create_shader :: "shader_type \<Rightarrow> state \<Rightarrow> (handle \<times> state) result" where
  "create_shader ty st0 =
     (let (shader, st) = create_opt (gl_create_shader_ok (env st0)) (\<lambda>h. Gl (GlCreateShader ty h)) st0
      in case shader of
           None \<Rightarrow> Inl (Assert_failed, st)
         | Some sh \<Rightarrow>
             (let st = emits [Gl (GlShaderSource sh), Gl (GlCompileShader sh)] st
              in if \<not> gl_compile_ok (env st)
                 then (let log = take 999 (gl_shader_log (env st));
                           st = emit (Gl (GlGetShaderInfoLog sh)) st
                       in Inl (Exit_1,
                            emit (Stderr (''Error: compiling ''
                                    @ (if ty = GL_VERTEX_SHADER then ''vertex'' else ''fragment'')
                                    @ '': '' @ log @ [CHR 0x0A])) st))
                 else Inr (sh, st)))"

definition init_gl :: "state \<Rightarrow> state result" where
  "init_gl st0 =
     (let st = emit (Gl (GlViewport (geometry_width (win st0)) (geometry_height (win st0)))) st0
      in bind_r (create_shader GL_FRAGMENT_SHADER st) (\<lambda>(frag, st).
         bind_r (create_shader GL_VERTEX_SHADER st) (\<lambda>(vert, st).
         let (p, st) = create (\<lambda>h. Gl (GlCreateProgram h)) st;
             st = st\<lparr>win := (win st)\<lparr>gl_program := p\<rparr>\<rparr>;
             st = emits [Gl (GlAttachShader p frag), Gl (GlAttachShader p vert),
                         Gl (GlLinkProgram p)] st
         in if \<not> gl_link_ok (env st)
            then (let log = take 999 (gl_program_log (env st));
                      st = emit (Gl (GlGetProgramInfoLog p)) st
                  in Inl (Exit_1,
                       emit (Stderr (''Error: linking:'' @ [CHR 0x0A] @ log @ [CHR 0x0A])) st))
            else
              (let st = emit (Gl (GlUseProgram p)) st;
                   st = st\<lparr>win := (win st)\<lparr>gl_pos := 0\<rparr>\<rparr>;
                   st = st\<lparr>win := (win st)\<lparr>gl_pos := 1\<rparr>\<rparr>;
                   st = emits [Gl (GlBindAttribLocation p (gl_pos (win st)) ''pos''),
                               Gl (GlBindAttribLocation p (gl_col (win st)) ''color''),
                               Gl (GlLinkProgram p)] st;
                   (u, st) = create (\<lambda>h. Gl (GlGetUniformLocation p ''rotation'' h)) st
               in Inr (st\<lparr>win := (win st)\<lparr>gl_rotation_uniform := u\<rparr>\<rparr>)))))"

definition handle_ping :: "handle \<Rightarrow> uint32 \<Rightarrow> state \<Rightarrow> state" where
  "handle_ping shell_surface' serial st = emit (Wl (Wl_shell_surface_pong shell_surface' serial)) st"

definition handle_configure :: "handle \<Rightarrow> uint32 \<Rightarrow> int32 \<Rightarrow> int32 \<Rightarrow> state \<Rightarrow> state" where
  "handle_configure shell_surface' edges width height st =
     st\<lparr>win := (win st)\<lparr>geometry_width := width, geometry_height := height, configured := True\<rparr>\<rparr>"

definition handle_popup_done :: "handle \<Rightarrow> state \<Rightarrow> state" where
  "handle_popup_done shell_surface' st = st"

definition destroy_surface :: "state \<Rightarrow> state result" where
  "destroy_surface st0 =
     bind_r (on_object (native (win st0)) (\<lambda>h. emit (Wl (Wl_egl_window_destroy h))) st0) (\<lambda>st.
     bind_r (on_object (shell_surface (win st)) (\<lambda>h. emit (Wl (Wl_shell_surface_destroy h))) st) (\<lambda>st.
     bind_r (on_object (surface (win st)) (\<lambda>h. emit (Wl (Wl_surface_destroy h))) st) (\<lambda>st.
     Inr (case callback (win st) of
            Some c \<Rightarrow> emit (Wl (Wl_callback_destroy c)) st
          | None \<Rightarrow> st))))"

definition speed_div :: uint32 where
  "speed_div = 5"

text \<open>
  The integer part of the expression for \<open>angle\<close> in \<open>redraw\<close>, in degrees:
  \<open>((time-start_time) / speed_div) % 360\<close>. The left operand of the division is
  unsigned, so the \<open>int32_t\<close> constant is converted and the division and the remainder
  are unsigned.
\<close>

definition angle_degrees :: "uint32 \<Rightarrow> uint32 \<Rightarrow> uint32" where
  "angle_degrees start time = ((time - start) div speed_div) mod 360"

definition redraw :: "handle option \<Rightarrow> uint32 \<Rightarrow> state \<Rightarrow> state result" where
  "redraw callback' time st0 =
     (let st = (if start_time st0 = 0 then st0\<lparr>start_time := time\<rparr> else st0);
          angle = angle_degrees (start_time st) time;
          st = emits [Gl (GlUniformMatrix4fv (gl_rotation_uniform (win st)) angle),
                      Gl GlClearColor, Gl GlClear,
                      Gl (GlVertexAttribPointer (gl_pos (win st)) 2),
                      Gl (GlVertexAttribPointer (gl_col (win st)) 3),
                      Gl (GlEnableVertexAttribArray (gl_pos (win st))),
                      Gl (GlEnableVertexAttribArray (gl_col (win st))),
                      Gl (GlDrawArrays 3),
                      Gl (GlDisableVertexAttribArray (gl_pos (win st))),
                      Gl (GlDisableVertexAttribArray (gl_col (win st))),
                      Gl GlFlush,
                      Egl (EglSwapBuffers (egl_surface (win st)))] st;
          st = (case callback' of
                  Some c \<Rightarrow> emit (Wl (Wl_callback_destroy c)) st
                | None \<Rightarrow> st)
      in bind_r (on_object (surface (win st)) (\<lambda>s. create (\<lambda>c. Wl (Wl_surface_frame s c))) st) (\<lambda>(c, st).
         let st = st\<lparr>win := (win st)\<lparr>callback := Some c\<rparr>\<rparr>
         in Inr (emit (Wl (Wl_callback_add_listener c)) st)))"

definition input_handle_pointer_enter :: "handle \<Rightarrow> uint32 \<Rightarrow> state \<Rightarrow> state" where
  "input_handle_pointer_enter input_device serial st =
     (if fullscreen (win st) then emit (Wl (Wl_input_device_attach input_device serial)) st else st)"

text \<open>\<open>wl_display_bind\<close> is taken to return a new proxy each time.\<close>

definition display_handle_global :: "uint32 \<Rightarrow> string \<Rightarrow> uint32 \<Rightarrow> state \<Rightarrow> state" where
  "display_handle_global id' interface version st =
     (if interface = ''wl_compositor'' then
        (let (h, st) = create (\<lambda>h. Wl (Wl_display_bind id' interface h)) st
         in st\<lparr>disp := (disp st)\<lparr>compositor := Some h\<rparr>\<rparr>)
      else if interface = ''wl_shell'' then
        (let (h, st) = create (\<lambda>h. Wl (Wl_display_bind id' interface h)) st
         in st\<lparr>disp := (disp st)\<lparr>shell := Some h\<rparr>\<rparr>)
      else if interface = ''wl_input_device'' then
        (let (h, st) = create (\<lambda>h. Wl (Wl_display_bind id' interface h)) st;
             st = st\<lparr>disp := (disp st)\<lparr>input := Some h\<rparr>\<rparr>
         in emit (Wl (Wl_input_device_add_listener h)) st)
      else st)"

definition event_mask_update :: "uint32 \<Rightarrow> state \<Rightarrow> state" where
  "event_mask_update mask' st = st\<lparr>disp := (disp st)\<lparr>mask_d := mask'\<rparr>\<rparr>"

definition signal_int :: "state \<Rightarrow> state" where
  "signal_int st = st\<lparr>running := False\<rparr>"

subsection \<open>Events and their dispatch\<close>

text \<open>
  What \<open>wl_display_iterate\<close> may deliver while it runs: the events of the server, each
  naming the object it is for, and SIGINT. An event reaches its handler when the object
  is one the program holds with the listener installed: the window's shell surface, an
  input device proxy on which \<open>display_handle_global\<close> installed the listener (every
  one it bound, also one that \<open>display.input\<close> no longer points to), a callback that
  is outstanding. The inert input handlers are one
  event. \<open>Mask_update\<close> is a call of \<open>event_mask_update\<close>, the function registered
  with \<open>wl_display_get_fd\<close>, by the library; a call it makes at the registration
  counts with the first batch, which is read with the constant \<open>WL_DISPLAY_READABLE\<close>
  whatever the mask is. The SIGINT handler is installed with \<open>SA_RESETHAND\<close>: it
  runs for the first SIGINT after \<open>sigaction\<close>, and any other SIGINT ends the process.
\<close>

datatype event =
    Global uint32 string uint32
  | Mask_update uint32
  | Ping handle uint32
  | Configure handle uint32 int32 int32
  | Popup_done handle
  | Frame_done handle uint32
  | Pointer_enter handle uint32
  | Input_other handle
  | SIGINT

fun dispatch :: "event \<Rightarrow> state \<Rightarrow> state result" where
  "dispatch (Global id' interface version) st = Inr (display_handle_global id' interface version st)"
| "dispatch (Mask_update m) st = Inr (event_mask_update m st)"
| "dispatch (Ping ss serial) st =
     Inr (if shell_surface (win st) = Some ss then handle_ping ss serial st else st)"
| "dispatch (Configure ss edges width height) st =
     Inr (if shell_surface (win st) = Some ss then handle_configure ss edges width height st else st)"
| "dispatch (Popup_done ss) st =
     Inr (if shell_surface (win st) = Some ss then handle_popup_done ss st else st)"
| "dispatch (Frame_done c time) st =
     (if c \<in> set (callbacks_outstanding (trace st)) then redraw (Some c) time st else Inr st)"
| "dispatch (Pointer_enter dev serial) st =
     Inr (if Wl (Wl_input_device_add_listener dev) \<in> set (trace st)
          then input_handle_pointer_enter dev serial st else st)"
| "dispatch (Input_other dev) st = Inr st"
| "dispatch SIGINT st =
     (if sigint_handler st then Inr (signal_int (st\<lparr>sigint_handler := False\<rparr>))
      else Inl (Killed, st))"

fun dispatch_all :: "event list \<Rightarrow> state \<Rightarrow> state result" where
  "dispatch_all [] st = Inr st"
| "dispatch_all (ev # evs) st =
     (case dispatch ev st of Inl e \<Rightarrow> Inl e | Inr st' \<Rightarrow> dispatch_all evs st')"

text \<open>
  \<open>wl_display_iterate\<close> on the events that arrive during the call. The events still
  to come are a list of such batches; when none is left the call never returns.
\<close>

definition wl_display_iterate :: "uint32 \<Rightarrow> event list \<Rightarrow> state \<Rightarrow> state result" where
  "wl_display_iterate mask' batch st = dispatch_all batch (emit (Wl (Wl_display_iterate mask')) st)"

definition blocked :: "uint32 \<Rightarrow> state \<Rightarrow> 'a result" where
  "blocked mask' st = Inl (Blocked, emit (Wl (Wl_display_iterate mask')) st)"

text \<open>The loop \<open>while (!window->configured) wl_display_iterate(...)\<close> of \<open>create_surface\<close>.\<close>

fun wait_configured :: "event list list \<Rightarrow> state \<Rightarrow> (event list list \<times> state) result" where
  "wait_configured [] st =
     (if \<not> configured (win st) then blocked (mask_d (disp st)) st else Inr ([], st))"
| "wait_configured (b # bs) st =
     (if \<not> configured (win st)
      then (case wl_display_iterate (mask_d (disp st)) b st of
              Inl e \<Rightarrow> Inl e
            | Inr st' \<Rightarrow> wait_configured bs st')
      else Inr (b # bs, st))"

definition create_surface :: "event list list \<Rightarrow> state \<Rightarrow> (event list list \<times> state) result" where
  "create_surface inbox st0 =
     bind_r (on_object (compositor (disp st0))
               (\<lambda>comp. create (\<lambda>s. Wl (Wl_compositor_create_surface comp s))) st0) (\<lambda>(s, st).
     let st = st\<lparr>win := (win st)\<lparr>surface := Some s\<rparr>\<rparr>
     in bind_r (on_object (shell (disp st))
                  (\<lambda>sh. create (\<lambda>ss. Wl (Wl_shell_get_shell_surface sh (surface (win st)) ss))) st) (\<lambda>(ss, st).
     let st = st\<lparr>win := (win st)\<lparr>shell_surface := Some ss\<rparr>\<rparr>;
         st = emit (Wl (Wl_shell_surface_add_listener ss)) st
     in bind_r (if fullscreen (win st)
                then (let st = st\<lparr>win := (win st)\<lparr>configured := False\<rparr>\<rparr>;
                          st = emit (Wl (Wl_shell_surface_set_fullscreen ss)) st
                      in wait_configured inbox st)
                else Inr (inbox, emit (Wl (Wl_shell_surface_set_toplevel ss)) st)) (\<lambda>(inbox', st).
     let (n, st) = create (\<lambda>n. Wl (Wl_egl_window_create s (geometry_width (win st))
                                      (geometry_height (win st)) n)) st;
         st = st\<lparr>win := (win st)\<lparr>native := Some n\<rparr>\<rparr>;
         (es, st) = create (\<lambda>es. Egl (EglCreateWindowSurface (native (win st)) es)) st;
         st = st\<lparr>win := (win st)\<lparr>egl_surface := Some es\<rparr>\<rparr>;
         ret = egl_make_current_ok (env st);
         st = emit (Egl (EglMakeCurrent (egl_surface (win st)) (egl_ctx (disp st)))) st
     in bind_r (assert ret st) (\<lambda>st. Inr (inbox', st)))))"

text \<open>The loop \<open>while (running) wl_display_iterate(...)\<close> of \<open>main\<close>.\<close>

fun main_loop :: "event list list \<Rightarrow> state \<Rightarrow> state result" where
  "main_loop [] st = (if running st then blocked (mask_d (disp st)) st else Inr st)"
| "main_loop (b # bs) st =
     (if running st
      then (case wl_display_iterate (mask_d (disp st)) b st of
              Inl e \<Rightarrow> Inl e
            | Inr st' \<Rightarrow> main_loop bs st')
      else Inr st)"

text \<open>The locals of \<open>main\<close> after \<open>= { 0 }\<close>, and the globals as initialised.\<close>

definition initial_state :: "environment \<Rightarrow> state" where
  "initial_state e =
     \<lparr>disp = \<lparr>display = None, compositor = None, shell = None, input = None,
              egl_dpy = None, egl_ctx = None, egl_conf = None, mask_d = 0\<rparr>,
      win = \<lparr>geometry_width = 0, geometry_height = 0, gl_program = 0,
             gl_rotation_uniform = 0, gl_pos = 0, gl_col = 0, native = None, surface = None,
             shell_surface = None, egl_surface = None, callback = None,
             fullscreen = False, configured = False\<rparr>,
      start_time = 0, running = True, sigint_handler = False,
      next_id = 1, trace = [], env = e\<rparr>"

text \<open>\<open>argc >= 2 && strcmp("-f", argv[0])\<close>: \<open>strcmp\<close> is nonzero when the strings differ.\<close>

definition fullscreen_requested :: "string list \<Rightarrow> bool" where
  "fullscreen_requested argv = (length argv \<ge> 2 \<and> ''-f'' \<noteq> argv ! 0)"

definition WL_DISPLAY_READABLE :: uint32 where
  "WL_DISPLAY_READABLE = 1"

text \<open>The end of \<open>main\<close>, from the \<open>fprintf\<close> after the loop.\<close>

definition teardown :: "state \<Rightarrow> state result" where
  "teardown st0 =
     (let st = emit (Stderr (''simple-egl exiting'' @ [CHR 0x0A])) st0
      in bind_r (destroy_surface st) (\<lambda>st.
         let st = fini_egl st;
             st = (case shell (disp st) of
                     Some h \<Rightarrow> emit (Wl (Wl_shell_destroy h)) st
                   | None \<Rightarrow> st);
             st = (case compositor (disp st) of
                     Some h \<Rightarrow> emit (Wl (Wl_compositor_destroy h)) st
                   | None \<Rightarrow> st)
         in Inr (emits [Wl Wl_display_flush, Wl Wl_display_disconnect] st)))"

text \<open>
  The beginning of \<open>main\<close>, up to and with the first call of \<open>redraw\<close>, on the
  argument vector, the batches of events that arrive and the environment. It returns
  the batches not yet read.
\<close>

definition startup :: "string list \<Rightarrow> event list list \<Rightarrow> environment \<Rightarrow> (event list list \<times> state) result" where
  "startup argv inbox e =
     (let st = initial_state e;
          st = st\<lparr>win := (win st)\<lparr>geometry_width := 250\<rparr>\<rparr>;
          st = st\<lparr>win := (win st)\<lparr>geometry_height := 250\<rparr>\<rparr>;
          st = (if fullscreen_requested argv then st\<lparr>win := (win st)\<lparr>fullscreen := True\<rparr>\<rparr> else st);
          (dpy, st) = create_opt (connect_ok (env st)) (\<lambda>h. Wl (Wl_display_connect h)) st;
          st = st\<lparr>disp := (disp st)\<lparr>display := dpy\<rparr>\<rparr>
      in bind_r (assert (dpy \<noteq> None) st) (\<lambda>st.
         let st = emits [Wl Wl_display_add_global_listener, Wl Wl_display_get_fd] st
         in bind_r (case inbox of
                      [] \<Rightarrow> blocked WL_DISPLAY_READABLE st
                    | b # bs \<Rightarrow> bind_r (wl_display_iterate WL_DISPLAY_READABLE b st) (\<lambda>st. Inr (bs, st)))
              (\<lambda>(inbox, st).
         bind_r (init_egl (if fullscreen (win st) then 0 else 1) st) (\<lambda>st.
         bind_r (create_surface inbox st) (\<lambda>(inbox, st).
         bind_r (init_gl st) (\<lambda>st.
         let st = emit Sigaction_SIGINT (st\<lparr>sigint_handler := True\<rparr>)
         in bind_r (redraw None 0 st) (\<lambda>st. Inr (inbox, st))))))))"

text \<open>
  \<open>main\<close>: the beginning, the loop and the end. The result is the final state when
  \<open>main\<close> returns (0, always).
\<close>

definition main :: "string list \<Rightarrow> event list list \<Rightarrow> environment \<Rightarrow> state result" where
  "main argv inbox e =
     bind_r (startup argv inbox e) (\<lambda>(inbox, st). bind_r (main_loop inbox st) teardown)"

text \<open>The state a run ended in, whether the function returned or the process stopped.\<close>

definition final_state :: "state result \<Rightarrow> state" where
  "final_state r = (case r of Inl (e, st) \<Rightarrow> st | Inr st \<Rightarrow> st)"

definition final_state_inbox :: "(event list list \<times> state) result \<Rightarrow> state" where
  "final_state_inbox r = (case r of Inl (e, st) \<Rightarrow> st | Inr (bs, st) \<Rightarrow> st)"

subsection \<open>Notions used to state the properties\<close>

text \<open>An environment in which every library call succeeds.\<close>

definition all_ok :: environment where
  "all_ok = \<lparr>connect_ok = True, egl_get_display_ok = True, egl_initialize_ok = True,
     egl_bind_api_ok = True, egl_choose_config_ok = True, egl_create_context_ok = True,
     egl_make_current_ok = True, gl_create_shader_ok = True, gl_compile_ok = True,
     gl_link_ok = True, gl_shader_log = [], gl_program_log = []\<rparr>"

text \<open>What a trace shows: the angles uploaded, the viewports set, the native windows
  created (their sizes), the frame callbacks requested, the frames drawn.\<close>

fun rotations :: "request list \<Rightarrow> uint32 list" where
  "rotations [] = []"
| "rotations (Gl (GlUniformMatrix4fv u a) # rs) = a # rotations rs"
| "rotations (r # rs) = rotations rs"

fun viewports :: "request list \<Rightarrow> (int32 \<times> int32) list" where
  "viewports [] = []"
| "viewports (Gl (GlViewport w h) # rs) = (w, h) # viewports rs"
| "viewports (r # rs) = viewports rs"

fun native_windows :: "request list \<Rightarrow> (int32 \<times> int32) list" where
  "native_windows [] = []"
| "native_windows (Wl (Wl_egl_window_create s w h n) # rs) = (w, h) # native_windows rs"
| "native_windows (r # rs) = native_windows rs"

fun frame_requests :: "request list \<Rightarrow> handle list" where
  "frame_requests [] = []"
| "frame_requests (Wl (Wl_surface_frame s c) # rs) = c # frame_requests rs"
| "frame_requests (r # rs) = frame_requests rs"

fun frames_drawn :: "request list \<Rightarrow> nat" where
  "frames_drawn [] = 0"
| "frames_drawn (Gl (GlDrawArrays n) # rs) = Suc (frames_drawn rs)"
| "frames_drawn (r # rs) = frames_drawn rs"

text \<open>At no point of the trace is more than one callback outstanding.\<close>

definition ok_trace :: "request list \<Rightarrow> bool" where
  "ok_trace tr = (\<forall>n. length (callbacks_outstanding (take n tr)) \<le> 1)"

text \<open>The same, read along a continuation \<open>rs\<close> of a trace that left \<open>cs\<close> outstanding.\<close>

fun ok_from :: "handle list \<Rightarrow> request list \<Rightarrow> bool" where
  "ok_from cs [] = True"
| "ok_from cs (r # rs) = (length (callback_step cs r) \<le> 1 \<and> ok_from (callback_step cs r) rs)"

text \<open>
  Before the first frame: no start time, no callback, nothing uploaded. Between frames:
  the callback the window holds is the one outstanding.
\<close>

definition no_frame_yet :: "state \<Rightarrow> bool" where
  "no_frame_yet st =
     (start_time st = 0 \<and> callback (win st) = None \<and> callbacks_outstanding (trace st) = []
      \<and> rotations (trace st) = [] \<and> ok_trace (trace st))"

definition callback_inv :: "state \<Rightarrow> bool" where
  "callback_inv st =
     (ok_trace (trace st)
      \<and> callbacks_outstanding (trace st) = (case callback (win st) of None \<Rightarrow> [] | Some c \<Rightarrow> [c]))"

text \<open>A result keeps \<open>P\<close> when it returns, and a sound trace when the process stops.\<close>

definition result_inv :: "(state \<Rightarrow> bool) \<Rightarrow> ('a \<Rightarrow> state) \<Rightarrow> 'a result \<Rightarrow> bool" where
  "result_inv P f r = (case r of Inl (e, st) \<Rightarrow> ok_trace (trace st) | Inr x \<Rightarrow> P (f x))"

text \<open>A run for the examples: the server announces the compositor and the shell.\<close>

definition announce :: "event list" where
  "announce = [Global 1 ''wl_compositor'' 1, Global 2 ''wl_shell'' 1]"

text \<open>The windowed client after its first frame, and after a frame callback at time 1000.\<close>

definition started :: state where
  "started = final_state_inbox (startup [''simple-egl''] [announce] all_ok)"

definition animated :: state where
  "animated = final_state (dispatch (Frame_done 15 1000) started)"

text \<open>
  The end-to-end run: the announcement, then one configure of 300 by 200 for the shell
  surface, then one frame callback at time 100 for the callback of the first frame.
\<close>

definition scenario :: "event list list" where
  "scenario = [announce, [Configure 8 0 300 200], [Frame_done 15 100]]"

text \<open>A predicate on the state a result ends in, returned or stopped.\<close>

definition result_all :: "(state \<Rightarrow> bool) \<Rightarrow> ('a \<Rightarrow> state) \<Rightarrow> 'a result \<Rightarrow> bool" where
  "result_all P f r = (case r of Inl (e, st) \<Rightarrow> P st | Inr x \<Rightarrow> P (f x))"

definition positive_geometry :: "state \<Rightarrow> bool" where
  "positive_geometry st =
     (0 < sint (geometry_width (win st)) \<and> 0 < sint (geometry_height (win st)))"

fun positive_configure :: "event \<Rightarrow> bool" where
  "positive_configure (Configure ss edges width height) = (0 < sint width \<and> 0 < sint height)"
| "positive_configure ev = True"

text \<open>Whether an event is a configure for the shell surface \<open>ss\<close>.\<close>

fun configure_for :: "handle \<Rightarrow> event \<Rightarrow> bool" where
  "configure_for ss (Configure ss' edges width height) = (ss' = ss)"
| "configure_for ss ev = False"

text \<open>The size of the last configure for the shell surface \<open>ss\<close> among some events.\<close>

fun last_configure :: "handle \<Rightarrow> event list \<Rightarrow> (int32 \<times> int32) option" where
  "last_configure ss [] = None"
| "last_configure ss (Configure ss' edges width height # evs) =
     (case last_configure ss evs of
        Some wh \<Rightarrow> Some wh
      | None \<Rightarrow> if ss' = ss then Some (width, height) else None)"
| "last_configure ss (ev # evs) = last_configure ss evs"

text \<open>How often a trace iterates the display.\<close>

fun iterations :: "request list \<Rightarrow> nat" where
  "iterations [] = 0"
| "iterations (Wl (Wl_display_iterate m) # rs) = Suc (iterations rs)"
| "iterations (r # rs) = iterations rs"

section \<open>Properties\<close>

subsection \<open>Reading traces\<close>

lemma callbacks_outstanding_Nil [simp]: "callbacks_outstanding [] = []"
  by (simp add: callbacks_outstanding_def)

lemma callbacks_outstanding_append [simp]:
  "callbacks_outstanding (xs @ ys) = foldl callback_step (callbacks_outstanding xs) ys"
  by (simp add: callbacks_outstanding_def)

lemma rotations_append [simp]: "rotations (xs @ ys) = rotations xs @ rotations ys"
  by (induction xs rule: rotations.induct) simp_all

lemma viewports_append [simp]: "viewports (xs @ ys) = viewports xs @ viewports ys"
  by (induction xs rule: viewports.induct) simp_all

lemma native_windows_append [simp]:
  "native_windows (xs @ ys) = native_windows xs @ native_windows ys"
  by (induction xs rule: native_windows.induct) simp_all

lemma frame_requests_append [simp]:
  "frame_requests (xs @ ys) = frame_requests xs @ frame_requests ys"
  by (induction xs rule: frame_requests.induct) simp_all

lemma frames_drawn_append [simp]: "frames_drawn (xs @ ys) = frames_drawn xs + frames_drawn ys"
  by (induction xs rule: frames_drawn.induct) simp_all

lemma ok_trace_Nil [simp]: "ok_trace []"
  by (simp add: ok_trace_def)

lemma ok_trace_snoc:
  "ok_trace (tr @ [r]) = (ok_trace tr \<and> length (callback_step (callbacks_outstanding tr) r) \<le> 1)"
proof
  assume a: "ok_trace (tr @ [r])"
  have "ok_trace tr"
    unfolding ok_trace_def
  proof
    fix n
    have "take n tr = take (min n (length tr)) (tr @ [r])" by (simp add: min_def)
    then show "length (callbacks_outstanding (take n tr)) \<le> 1"
      using a unfolding ok_trace_def by metis
  qed
  moreover have "length (callbacks_outstanding (take (Suc (length tr)) (tr @ [r]))) \<le> 1"
    using a unfolding ok_trace_def by blast
  ultimately show "ok_trace tr \<and> length (callback_step (callbacks_outstanding tr) r) \<le> 1"
    by simp
next
  assume a: "ok_trace tr \<and> length (callback_step (callbacks_outstanding tr) r) \<le> 1"
  show "ok_trace (tr @ [r])"
    unfolding ok_trace_def
  proof
    fix n
    show "length (callbacks_outstanding (take n (tr @ [r]))) \<le> 1"
    proof (cases "n \<le> length tr")
      case True
      then have "take n (tr @ [r]) = take n tr" by simp
      then show ?thesis using a unfolding ok_trace_def by simp
    next
      case False
      then have "take n (tr @ [r]) = tr @ [r]" by simp
      then show ?thesis using a by simp
    qed
  qed
qed

lemma ok_trace_append [simp]:
  "ok_trace (tr @ rs) = (ok_trace tr \<and> ok_from (callbacks_outstanding tr) rs)"
proof (induction rs arbitrary: tr)
  case Nil
  then show ?case by simp
next
  case (Cons r rs)
  have "ok_trace (tr @ r # rs) = ok_trace ((tr @ [r]) @ rs)" by simp
  also have "\<dots> = (ok_trace (tr @ [r]) \<and> ok_from (callbacks_outstanding (tr @ [r])) rs)"
    by (rule Cons.IH)
  finally show ?case by (auto simp: ok_trace_snoc)
qed

subsection \<open>Sample runs\<close>

lemmas run_defs = startup_def main_def initial_state_def all_ok_def fullscreen_requested_def
  create_opt_def create_def assert_def bind_r_def emits_def emit_def blocked_def on_object_def
  wl_display_iterate_def WL_DISPLAY_READABLE_def display_handle_global_def init_egl_def
  create_surface_def init_gl_def create_shader_def redraw_def handle_configure_def handle_ping_def
  handle_popup_done_def event_mask_update_def signal_int_def input_handle_pointer_enter_def
  teardown_def destroy_surface_def fini_egl_def final_state_def final_state_inbox_def Let_def
  announce_def angle_degrees_def speed_div_def callbacks_outstanding_def

lemma startup_windowed:
  "startup [''simple-egl''] (announce # rest) all_ok = Inr (rest,
   \<lparr>disp = \<lparr>display = Some 1, compositor = Some 2, shell = Some 3, input = None,
           egl_dpy = Some 4, egl_ctx = Some 6, egl_conf = Some 5, mask_d = 0\<rparr>,
    win = \<lparr>geometry_width = 250, geometry_height = 250, gl_program = 13,
           gl_rotation_uniform = 14, gl_pos = 1, gl_col = 0, native = Some 9,
           surface = Some 7, shell_surface = Some 8, egl_surface = Some 10,
           callback = Some 15, fullscreen = False, configured = False\<rparr>,
    start_time = 0, running = True, sigint_handler = True, next_id = 16,
    trace =
      [Wl (Wl_display_connect 1), Wl Wl_display_add_global_listener, Wl Wl_display_get_fd,
       Wl (Wl_display_iterate 1), Wl (Wl_display_bind 1 ''wl_compositor'' 2),
       Wl (Wl_display_bind 2 ''wl_shell'' 3), Egl (EglGetDisplay 4), Egl EglInitialize,
       Egl EglBindAPI, Egl (EglChooseConfig 1 5), Egl (EglCreateContext 6),
       Wl (Wl_compositor_create_surface 2 7), Wl (Wl_shell_get_shell_surface 3 (Some 7) 8),
       Wl (Wl_shell_surface_add_listener 8), Wl (Wl_shell_surface_set_toplevel 8),
       Wl (Wl_egl_window_create 7 250 250 9), Egl (EglCreateWindowSurface (Some 9) 10),
       Egl (EglMakeCurrent (Some 10) (Some 6)), Gl (GlViewport 250 250),
       Gl (GlCreateShader GL_FRAGMENT_SHADER 11), Gl (GlShaderSource 11),
       Gl (GlCompileShader 11), Gl (GlCreateShader GL_VERTEX_SHADER 12),
       Gl (GlShaderSource 12), Gl (GlCompileShader 12), Gl (GlCreateProgram 13),
       Gl (GlAttachShader 13 11), Gl (GlAttachShader 13 12), Gl (GlLinkProgram 13),
       Gl (GlUseProgram 13), Gl (GlBindAttribLocation 13 1 ''pos''),
       Gl (GlBindAttribLocation 13 0 ''color''), Gl (GlLinkProgram 13),
       Gl (GlGetUniformLocation 13 ''rotation'' 14), Sigaction_SIGINT,
       Gl (GlUniformMatrix4fv 14 0), Gl GlClearColor, Gl GlClear,
       Gl (GlVertexAttribPointer 1 2), Gl (GlVertexAttribPointer 0 3),
       Gl (GlEnableVertexAttribArray 1), Gl (GlEnableVertexAttribArray 0),
       Gl (GlDrawArrays 3), Gl (GlDisableVertexAttribArray 1),
       Gl (GlDisableVertexAttribArray 0), Gl GlFlush, Egl (EglSwapBuffers (Some 10)),
       Wl (Wl_surface_frame 7 15), Wl (Wl_callback_add_listener 15)],
    env = all_ok\<rparr>)"
  by (simp add: run_defs)

lemmas started_eq =
  started_def [unfolded startup_windowed final_state_inbox_def, simplified]

lemma startup_started: "startup [''simple-egl''] (announce # rest) all_ok = Inr (rest, started)"
  by (simp add: startup_windowed started_eq)

lemma started_fields:
  "start_time started = 0" "callback (win started) = Some 15" "surface (win started) = Some 7"
  "next_id started = 16" "callbacks_outstanding (trace started) = [15]"
  "rotations (trace started) = [0]" "shell_surface (win started) = Some 8"
  "native (win started) = Some 9" "compositor (disp started) = Some 2"
  "shell (disp started) = Some 3" "\<not> fullscreen (win started)"
  "geometry_width (win started) = 250" "geometry_height (win started) = 250"
  "sigint_handler started" "running started"
  by (simp_all add: started_eq callbacks_outstanding_def)

lemma redraw_started:
  "redraw (Some 15) 1000 started =
     Inr (started\<lparr>start_time := 1000, next_id := 17,
                  win := (win started)\<lparr>callback := Some 16\<rparr>,
                  trace := trace started @
                    [Gl (GlUniformMatrix4fv 14 0), Gl GlClearColor, Gl GlClear,
                     Gl (GlVertexAttribPointer 1 2), Gl (GlVertexAttribPointer 0 3),
                     Gl (GlEnableVertexAttribArray 1), Gl (GlEnableVertexAttribArray 0),
                     Gl (GlDrawArrays 3), Gl (GlDisableVertexAttribArray 1),
                     Gl (GlDisableVertexAttribArray 0), Gl GlFlush,
                     Egl (EglSwapBuffers (Some 10)), Wl (Wl_callback_destroy 15),
                     Wl (Wl_surface_frame 7 16), Wl (Wl_callback_add_listener 16)]\<rparr>)"
  by (simp add: started_eq redraw_def Let_def emits_def emit_def on_object_def create_def
      bind_r_def angle_degrees_def speed_div_def)

lemma animated_eq:
  "animated = started\<lparr>start_time := 1000, next_id := 17,
                  win := (win started)\<lparr>callback := Some 16\<rparr>,
                  trace := trace started @
                    [Gl (GlUniformMatrix4fv 14 0), Gl GlClearColor, Gl GlClear,
                     Gl (GlVertexAttribPointer 1 2), Gl (GlVertexAttribPointer 0 3),
                     Gl (GlEnableVertexAttribArray 1), Gl (GlEnableVertexAttribArray 0),
                     Gl (GlDrawArrays 3), Gl (GlDisableVertexAttribArray 1),
                     Gl (GlDisableVertexAttribArray 0), Gl GlFlush,
                     Egl (EglSwapBuffers (Some 10)), Wl (Wl_callback_destroy 15),
                     Wl (Wl_surface_frame 7 16), Wl (Wl_callback_add_listener 16)]\<rparr>"
  by (simp add: animated_def started_fields redraw_started final_state_def)

lemma animated_fields:
  "start_time animated = 1000" "callback (win animated) = Some 16"
  "surface (win animated) = Some 7" "callbacks_outstanding (trace animated) = [16]"
  "rotations (trace animated) = [0, 0]" "next_id animated = 17"
  by (simp_all add: animated_eq started_fields)

lemma redraw_animated: "redraw (Some 15) 1000 started = Inr animated"
  by (simp add: redraw_started animated_eq)

lemma bind_r_Inr: "bind_r (Inr x) f = f x"
  by (simp add: bind_r_def)

lemma bind_r_Inl: "bind_r (Inl e) f = Inl e"
  by (simp add: bind_r_def)

subsection \<open>The frame handler in closed form\<close>

lemma redraw_unfold:
  "redraw cb t st =
     (case surface (win st) of
        None \<Rightarrow> Inl (Null_object,
          (case cb of Some c \<Rightarrow> emit (Wl (Wl_callback_destroy c)) | None \<Rightarrow> (\<lambda>s. s))
            (emits [Gl (GlUniformMatrix4fv (gl_rotation_uniform (win st))
                      (angle_degrees (if start_time st = 0 then t else start_time st) t)),
                      Gl GlClearColor, Gl GlClear,
                      Gl (GlVertexAttribPointer (gl_pos (win st)) 2),
                      Gl (GlVertexAttribPointer (gl_col (win st)) 3),
                      Gl (GlEnableVertexAttribArray (gl_pos (win st))),
                      Gl (GlEnableVertexAttribArray (gl_col (win st))),
                      Gl (GlDrawArrays 3),
                      Gl (GlDisableVertexAttribArray (gl_pos (win st))),
                      Gl (GlDisableVertexAttribArray (gl_col (win st))),
                      Gl GlFlush,
                      Egl (EglSwapBuffers (egl_surface (win st)))]
               (st\<lparr>start_time := (if start_time st = 0 then t else start_time st)\<rparr>)))
      | Some s \<Rightarrow> Inr (st\<lparr>start_time := (if start_time st = 0 then t else start_time st),
            next_id := Suc (next_id st),
            win := (win st)\<lparr>callback := Some (next_id st)\<rparr>,
            trace := trace st @
              [Gl (GlUniformMatrix4fv (gl_rotation_uniform (win st))
                      (angle_degrees (if start_time st = 0 then t else start_time st) t)),
               Gl GlClearColor, Gl GlClear,
               Gl (GlVertexAttribPointer (gl_pos (win st)) 2),
               Gl (GlVertexAttribPointer (gl_col (win st)) 3),
               Gl (GlEnableVertexAttribArray (gl_pos (win st))),
               Gl (GlEnableVertexAttribArray (gl_col (win st))),
               Gl (GlDrawArrays 3),
               Gl (GlDisableVertexAttribArray (gl_pos (win st))),
               Gl (GlDisableVertexAttribArray (gl_col (win st))),
               Gl GlFlush,
               Egl (EglSwapBuffers (egl_surface (win st)))]
              @ (case cb of Some c \<Rightarrow> [Wl (Wl_callback_destroy c)] | None \<Rightarrow> [])
              @ [Wl (Wl_surface_frame s (next_id st)), Wl (Wl_callback_add_listener (next_id st))]\<rparr>))"
  by (cases "surface (win st)"; cases cb; cases "start_time st = 0")
     (simp_all add: redraw_def Let_def bind_r_def on_object_def emits_def emit_def create_def)

lemma redraw_rearms:
  assumes "callbacks_outstanding (trace st) = (case cb of None \<Rightarrow> [] | Some c \<Rightarrow> [c])"
    and "redraw cb t st = Inr st'"
  shows "callbacks_outstanding (trace st') = [next_id st]
    \<and> callback (win st') = Some (next_id st)
    \<and> take (length (trace st)) (trace st') = trace st
    \<and> ok_from (callbacks_outstanding (trace st)) (drop (length (trace st)) (trace st'))
    \<and> (\<forall>c. cb = Some c \<longrightarrow> Wl (Wl_callback_destroy c) \<in> set (drop (length (trace st)) (trace st')))"
proof (cases "surface (win st)")
  case None
  then show ?thesis using assms(2) by (simp add: redraw_unfold)
next
  case (Some s)
  then have st': "st' = st\<lparr>start_time := (if start_time st = 0 then t else start_time st),
            next_id := Suc (next_id st),
            win := (win st)\<lparr>callback := Some (next_id st)\<rparr>,
            trace := trace st @
              [Gl (GlUniformMatrix4fv (gl_rotation_uniform (win st))
                      (angle_degrees (if start_time st = 0 then t else start_time st) t)),
               Gl GlClearColor, Gl GlClear,
               Gl (GlVertexAttribPointer (gl_pos (win st)) 2),
               Gl (GlVertexAttribPointer (gl_col (win st)) 3),
               Gl (GlEnableVertexAttribArray (gl_pos (win st))),
               Gl (GlEnableVertexAttribArray (gl_col (win st))),
               Gl (GlDrawArrays 3),
               Gl (GlDisableVertexAttribArray (gl_pos (win st))),
               Gl (GlDisableVertexAttribArray (gl_col (win st))),
               Gl GlFlush,
               Egl (EglSwapBuffers (egl_surface (win st)))]
              @ (case cb of Some c \<Rightarrow> [Wl (Wl_callback_destroy c)] | None \<Rightarrow> [])
              @ [Wl (Wl_surface_frame s (next_id st)), Wl (Wl_callback_add_listener (next_id st))]\<rparr>"
    using assms(2) by (simp add: redraw_unfold)
  show ?thesis
  proof (cases cb)
    case None
    then show ?thesis using assms(1) by (simp add: st')
  next
    case (Some c)
    then show ?thesis using assms(1) by (simp add: st')
  qed
qed

subsection \<open>Ping\<close>

text \<open>
  C9. The ping handler records exactly one request, the pong on the shell surface the
  ping came from with the serial of the ping, and changes nothing else in the state;
  a ping for the window's shell surface is dispatched to it.
\<close>

theorem handle_ping_pong_same_serial:
  "trace (handle_ping ss serial st) = trace st @ [Wl (Wl_shell_surface_pong ss serial)]
   \<and> handle_ping ss serial st = st\<lparr>trace := trace (handle_ping ss serial st)\<rparr>
   \<and> dispatch (Ping ss serial) (st\<lparr>win := (win st)\<lparr>shell_surface := Some ss\<rparr>\<rparr>) =
       Inr (handle_ping ss serial (st\<lparr>win := (win st)\<lparr>shell_surface := Some ss\<rparr>\<rparr>))"
  by (simp add: handle_ping_def emit_def)

subsection \<open>Globals\<close>

text \<open>
  C7. \<open>display_handle_global\<close> leaves the state as it is for every interface name other
  than the three it knows. For each of the three it binds the global (one bind request,
  with a new handle) and stores that handle in the field of the interface, and for the
  input device installs the listener. Announced twice, the field holds the handle of the
  second bind, which the last request of the trace returned.
\<close>

theorem display_handle_global_binds_known:
  "(interface \<notin> {''wl_compositor'', ''wl_shell'', ''wl_input_device''} \<longrightarrow>
      display_handle_global id' interface version st = st)
   \<and> display_handle_global id' ''wl_compositor'' version st =
       st\<lparr>disp := (disp st)\<lparr>compositor := Some (next_id st)\<rparr>,
          next_id := Suc (next_id st),
          trace := trace st @ [Wl (Wl_display_bind id' ''wl_compositor'' (next_id st))]\<rparr>
   \<and> display_handle_global id' ''wl_shell'' version st =
       st\<lparr>disp := (disp st)\<lparr>shell := Some (next_id st)\<rparr>,
          next_id := Suc (next_id st),
          trace := trace st @ [Wl (Wl_display_bind id' ''wl_shell'' (next_id st))]\<rparr>
   \<and> display_handle_global id' ''wl_input_device'' version st =
       st\<lparr>disp := (disp st)\<lparr>input := Some (next_id st)\<rparr>,
          next_id := Suc (next_id st),
          trace := trace st @ [Wl (Wl_display_bind id' ''wl_input_device'' (next_id st)),
                               Wl (Wl_input_device_add_listener (next_id st))]\<rparr>
   \<and> compositor (disp (display_handle_global id' ''wl_compositor'' version
         (display_handle_global id' ''wl_compositor'' version st))) = Some (Suc (next_id st))
   \<and> last (trace (display_handle_global id' ''wl_compositor'' version
         (display_handle_global id' ''wl_compositor'' version st))) =
       Wl (Wl_display_bind id' ''wl_compositor'' (Suc (next_id st)))
   \<and> shell (disp (display_handle_global id' ''wl_shell'' version
         (display_handle_global id' ''wl_shell'' version st))) = Some (Suc (next_id st))
   \<and> last (trace (display_handle_global id' ''wl_shell'' version
         (display_handle_global id' ''wl_shell'' version st))) =
       Wl (Wl_display_bind id' ''wl_shell'' (Suc (next_id st)))
   \<and> input (disp (display_handle_global id' ''wl_input_device'' version
         (display_handle_global id' ''wl_input_device'' version st))) = Some (Suc (next_id st))"
  by (simp add: display_handle_global_def create_def emit_def)

theorem display_handle_global_binds_known_witness:
  "''wl_seat'' \<notin> {''wl_compositor'', ''wl_shell'', ''wl_input_device''}
   \<and> display_handle_global 7 ''wl_seat'' 1 (initial_state all_ok) = initial_state all_ok"
  using display_handle_global_binds_known [of "''wl_seat''" 7 1 "initial_state all_ok"]
  by simp

subsection \<open>The command line\<close>

text \<open>
  C5. With the arguments \<open>simple-egl -x\<close> the window is fullscreen although \<open>-f\<close> was
  not passed, and a program invoked under the name \<open>-f\<close> with the argument \<open>-f\<close> is
  windowed: the test compares \<open>argv[0]\<close> and takes a difference for a match.
\<close>

theorem fullscreen_flag_misparsed:
  "fullscreen_requested [''simple-egl'', ''-x''] \<and> \<not> fullscreen_requested [''-f'', ''-f'']
   \<and> fullscreen (win (final_state (main [''simple-egl'', ''-x''] [] all_ok)))"
  by (simp add: fullscreen_requested_def main_def startup_def Let_def create_opt_def create_def
      initial_state_def all_ok_def assert_def bind_r_def emits_def blocked_def emit_def
      final_state_def)

subsection \<open>The rotation angle\<close>

lemma angle_degrees_less: "angle_degrees s t < 360"
  unfolding angle_degrees_def by (rule word_mod_less_divisor) simp

lemma unat_angle_degrees: "unat (angle_degrees s t) = (unat (t - s) div 5) mod 360"
  by (simp add: angle_degrees_def speed_div_def unat_mod unat_div)

lemma top_elapsed_div:
  "(4294967291::nat) \<le> e \<Longrightarrow> e < 4294967296 \<Longrightarrow> e div 5 = 858993458 \<or> e div 5 = 858993459"
  by linarith

lemma wrap_nat: "(e div 5) mod 360 = 359 \<Longrightarrow> ((e + 5) div 5) mod 360 = (0::nat)"
proof -
  assume a: "(e div 5) mod 360 = 359"
  have "(e + 5) div 5 = Suc (e div 5)" by simp
  then show ?thesis using a by (simp add: mod_Suc)
qed

lemma mono_nat:
  assumes "(a::nat) \<le> b" "a div 1800 = b div 1800"
  shows "(a div 5) mod 360 \<le> (b div 5) mod 360"
proof -
  have a: "a div 5 div 360 = b div 5 div 360"
    using assms(2) by (simp add: div_mult2_eq[symmetric])
  have le: "a div 5 \<le> b div 5" using assms(1) by (rule div_le_mono)
  have "a div 5 = 360 * (a div 5 div 360) + (a div 5) mod 360" by simp
  moreover have "b div 5 = 360 * (b div 5 div 360) + (b div 5) mod 360" by simp
  ultimately show ?thesis using a le by linarith
qed

lemma angle_degrees_wrap:
  assumes "angle_degrees s t = 359"
  shows "angle_degrees s (t + 5) = 0"
proof -
  let ?e = "unat (t - s)"
  have e: "(?e div 5) mod 360 = 359" using assms unat_angle_degrees[of s t] by simp
  have lt: "?e < 4294967296" using unsigned_less[of "t - s"] by simp
  have "?e < 4294967291"
  proof (rule ccontr)
    assume "\<not> ?e < 4294967291"
    then have "?e div 5 = 858993458 \<or> ?e div 5 = 858993459" using lt top_elapsed_div by simp
    then show False using e by auto
  qed
  then have "unat (t - s + 5) = ?e + 5"
    by (simp add: unat_word_ariths)
  moreover have "t + 5 - s = t - s + 5" by simp
  ultimately have "unat (t + 5 - s) = ?e + 5" by metis
  then have "unat (angle_degrees s (t + 5)) = ((?e + 5) div 5) mod 360"
    by (simp only: unat_angle_degrees)
  also have "\<dots> = 0" using e by (rule wrap_nat)
  finally show ?thesis by (simp add: unat_eq_0)
qed

lemma angle_degrees_mono:
  assumes "t - s \<le> t' - s" "(t - s) div 1800 = (t' - s) div 1800"
  shows "angle_degrees s t \<le> angle_degrees s t'"
proof -
  let ?a = "unat (t - s)" and ?b = "unat (t' - s)"
  have le: "?a \<le> ?b" using assms(1) by (simp add: word_le_nat_alt)
  have "unat ((t - s) div 1800) = unat ((t' - s) div 1800)" using assms(2) by simp
  then have d: "?a div 1800 = ?b div 1800" by (simp add: unat_div)
  have "(?a div 5) mod 360 \<le> (?b div 5) mod 360" using le d by (rule mono_nat)
  then show ?thesis by (simp add: word_le_nat_alt unat_angle_degrees)
qed

lemma redraw_Inr:
  "redraw cb t st = Inr st' \<Longrightarrow>
     start_time st' = (if start_time st = 0 then t else start_time st)
   \<and> rotations (trace st') = rotations (trace st) @ [angle_degrees (start_time st') t]
   \<and> frames_drawn (trace st') = Suc (frames_drawn (trace st))
   \<and> frame_requests (trace st') = frame_requests (trace st) @ [next_id st]
   \<and> callback (win st') = Some (next_id st)"
  by (auto simp: redraw_def Let_def bind_r_def on_object_def emits_def emit_def create_def
      split: option.splits if_splits)

text \<open>
  C3, as the code has it. Once the start time is captured (nonzero), the frame handler
  uploads the angle \<open>((t - start_time) / 5) mod 360\<close> degrees, in unsigned 32-bit
  arithmetic, and keeps the start time. That angle is below 360; it is 0 at
  \<open>t = start_time\<close>, 1 at \<open>start_time + 5\<close> and 5 at \<open>start_time + 25\<close>; from an angle
  of 359, five milliseconds more give 0; and within one turn (1800 ms of elapsed time)
  it does not decrease.
\<close>

theorem redraw_angle:
  "(start_time st \<noteq> 0 \<longrightarrow> redraw cb t st = Inr st' \<longrightarrow>
      rotations (trace st') = rotations (trace st) @ [angle_degrees (start_time st) t]
      \<and> start_time st' = start_time st)
   \<and> angle_degrees s t = ((t - s) div 5) mod 360
   \<and> angle_degrees s t < 360
   \<and> angle_degrees s s = 0
   \<and> angle_degrees s (s + speed_div) = 1
   \<and> angle_degrees s (s + 5 * speed_div) = 5
   \<and> (angle_degrees s t = 359 \<longrightarrow> angle_degrees s (t + speed_div) = 0)
   \<and> (t - s \<le> t' - s \<and> (t - s) div 1800 = (t' - s) div 1800 \<longrightarrow>
        angle_degrees s t \<le> angle_degrees s t')"
proof -
  have "start_time st \<noteq> 0 \<longrightarrow> redraw cb t st = Inr st' \<longrightarrow>
      rotations (trace st') = rotations (trace st) @ [angle_degrees (start_time st) t]
      \<and> start_time st' = start_time st"
    using redraw_Inr[of cb t st st'] by auto
  moreover have "angle_degrees s t = ((t - s) div 5) mod 360"
    by (simp add: angle_degrees_def speed_div_def)
  moreover have "angle_degrees s s = 0" "angle_degrees s (s + speed_div) = 1"
    "angle_degrees s (s + 5 * speed_div) = 5"
    by (simp_all add: angle_degrees_def speed_div_def)
  moreover have "angle_degrees s t = 359 \<longrightarrow> angle_degrees s (t + speed_div) = 0"
    using angle_degrees_wrap[of s t] by (simp add: speed_div_def)
  ultimately show ?thesis
    using angle_degrees_less[of s t] angle_degrees_mono[of t s t'] by blast
qed

text \<open>An instance: the third frame of the windowed client, 1795 ms after the start time.\<close>

theorem redraw_angle_witness:
  "start_time animated \<noteq> 0
   \<and> redraw (Some 16) 2795 animated = Inr (final_state (redraw (Some 16) 2795 animated))
   \<and> rotations (trace (final_state (redraw (Some 16) 2795 animated))) = [0, 0, 359]
   \<and> angle_degrees 1000 2795 = 359 \<and> angle_degrees 1000 (2795 + speed_div) = 0
   \<and> (2795 :: uint32) - 1000 \<le> 2799 - 1000
   \<and> ((2795 :: uint32) - 1000) div 1800 = (2799 - 1000) div 1800
   \<and> angle_degrees 1000 2795 \<le> angle_degrees 1000 2799"
proof -
  have r: "redraw (Some 16) 2795 animated = Inr (final_state (redraw (Some 16) 2795 animated))"
    by (simp add: redraw_unfold animated_fields final_state_def)
  have a: "angle_degrees 1000 2795 = 359"
    by (simp add: angle_degrees_def speed_div_def)
  have le: "(2795 :: uint32) - 1000 \<le> 2799 - 1000
    \<and> ((2795 :: uint32) - 1000) div 1800 = (2799 - 1000) div 1800"
    by simp
  show ?thesis
    using redraw_angle[where st = animated and cb = "Some 16" and t = 2795
        and st' = "final_state (redraw (Some 16) 2795 animated)" and s = 1000 and t' = 2799] r a le
    by (simp add: animated_fields)
qed

text \<open>
  C3 as stated fails: 25 ms (five times the divisor) after the start time the angle is
  5 degrees, not about 1.
\<close>

theorem angle_after_25_ms_counterexample:
  "angle_degrees 1000 (1000 + 5 * speed_div) = 5
   \<and> angle_degrees 1000 (1000 + 5 * speed_div) \<noteq> 1"
  by (simp add: angle_degrees_def speed_div_def)

subsection \<open>One callback outstanding\<close>

lemma ok_trace_outstanding: "ok_trace tr \<Longrightarrow> length (callbacks_outstanding tr) \<le> Suc 0"
proof -
  assume "ok_trace tr"
  then have "length (callbacks_outstanding (take (length tr) tr)) \<le> 1"
    unfolding ok_trace_def by blast
  then show ?thesis by simp
qed

lemma no_frame_yet_callback_inv: "no_frame_yet st \<Longrightarrow> callback_inv st"
  by (simp add: no_frame_yet_def callback_inv_def)

lemma redraw_inv:
  assumes "callback_inv st"
    and "cb = None \<longrightarrow> callback (win st) = None"
    and "\<forall>c. cb = Some c \<longrightarrow> c \<in> set (callbacks_outstanding (trace st))"
  shows "result_inv callback_inv id (redraw cb t st)"
proof (cases "surface (win st)")
  case None
  then show ?thesis using assms
    by (cases cb) (auto simp: redraw_def Let_def bind_r_def on_object_def emits_def emit_def
      callback_inv_def result_inv_def split: option.splits)
next
  case (Some s)
  then show ?thesis using assms
    by (cases cb) (auto simp: redraw_def Let_def bind_r_def on_object_def emits_def emit_def
      create_def callback_inv_def result_inv_def split: option.splits)
qed

lemma dispatch_inv: "callback_inv st \<Longrightarrow> result_inv callback_inv id (dispatch ev st)"
proof (cases ev)
  case (Frame_done c t)
  assume "callback_inv st"
  then show ?thesis using Frame_done redraw_inv[of st "Some c" t]
    by (simp add: result_inv_def)
next
  case (Global i n v)
  assume "callback_inv st"
  then show ?thesis using Global
    by (auto simp: result_inv_def callback_inv_def display_handle_global_def create_def emit_def
        split: option.splits)
qed (auto simp: result_inv_def callback_inv_def event_mask_update_def handle_ping_def
      handle_configure_def handle_popup_done_def input_handle_pointer_enter_def signal_int_def
      emit_def split: option.splits)

lemma dispatch_all_inv:
  "callback_inv st \<Longrightarrow> result_inv callback_inv id (dispatch_all evs st)"
proof (induction evs arbitrary: st)
  case Nil
  then show ?case by (simp add: result_inv_def)
next
  case (Cons ev evs)
  show ?case
  proof (cases "dispatch ev st")
    case (Inl a)
    then show ?thesis using dispatch_inv[OF Cons.prems, of ev] by (simp add: result_inv_def)
  next
    case (Inr st')
    then have "callback_inv st'" using dispatch_inv[OF Cons.prems, of ev]
      by (simp add: result_inv_def)
    then show ?thesis using Cons.IH Inr by simp
  qed
qed

lemma emit_iterate_inv: "callback_inv st \<Longrightarrow> callback_inv (emit (Wl (Wl_display_iterate m)) st)"
  by (auto simp: callback_inv_def emit_def split: option.splits)

lemma wl_display_iterate_inv:
  "callback_inv st \<Longrightarrow> result_inv callback_inv id (wl_display_iterate m b st)"
  unfolding wl_display_iterate_def by (rule dispatch_all_inv) (rule emit_iterate_inv)

lemma blocked_inv: "callback_inv st \<Longrightarrow> result_inv P f (blocked m st)"
  by (auto simp: blocked_def result_inv_def callback_inv_def emit_def split: option.splits)

lemma main_loop_inv: "callback_inv st \<Longrightarrow> result_inv callback_inv id (main_loop bs st)"
proof (induction bs arbitrary: st)
  case Nil
  then show ?case
    by (auto simp: blocked_def result_inv_def callback_inv_def emit_def split: option.splits)
next
  case (Cons b bs)
  show ?case
  proof (cases "wl_display_iterate (mask_d (disp st)) b st")
    case (Inl a)
    then show ?thesis using wl_display_iterate_inv[OF Cons.prems, of "mask_d (disp st)" b] Cons.prems
      by (simp add: result_inv_def)
  next
    case (Inr st')
    then have "callback_inv st'" using wl_display_iterate_inv[OF Cons.prems, of "mask_d (disp st)" b]
      by (simp add: result_inv_def)
    then show ?thesis using Cons.IH Inr Cons.prems by (simp add: result_inv_def)
  qed
qed

lemma teardown_inv: "callback_inv st \<Longrightarrow> ok_trace (trace (final_state (teardown st)))"
  by (auto simp: teardown_def destroy_surface_def fini_egl_def Let_def bind_r_def on_object_def
      emits_def emit_def callback_inv_def final_state_def split: option.splits)

subsection \<open>Before the first frame\<close>

lemma result_inv_bind:
  assumes "result_inv P f r" and "\<And>x. r = Inr x \<Longrightarrow> P (f x) \<Longrightarrow> result_inv Q g (k x)"
  shows "result_inv Q g (bind_r r k)"
  using assms by (cases r) (auto simp: result_inv_def bind_r_def)

lemma no_frame_yet_ok: "no_frame_yet st \<Longrightarrow> ok_trace (trace st)"
  by (simp add: no_frame_yet_def)

lemma dispatch_no_frame: "no_frame_yet st \<Longrightarrow> result_inv no_frame_yet id (dispatch ev st)"
  by (cases ev) (auto simp: result_inv_def no_frame_yet_def display_handle_global_def create_def
      emit_def event_mask_update_def handle_ping_def handle_configure_def handle_popup_done_def
      input_handle_pointer_enter_def signal_int_def)

lemma dispatch_all_no_frame:
  "no_frame_yet st \<Longrightarrow> result_inv no_frame_yet id (dispatch_all evs st)"
proof (induction evs arbitrary: st)
  case Nil
  then show ?case by (simp add: result_inv_def)
next
  case (Cons ev evs)
  show ?case
  proof (cases "dispatch ev st")
    case (Inl a)
    then show ?thesis using dispatch_no_frame[OF Cons.prems, of ev] by (simp add: result_inv_def)
  next
    case (Inr st')
    then have "no_frame_yet st'" using dispatch_no_frame[OF Cons.prems, of ev]
      by (simp add: result_inv_def)
    then show ?thesis using Cons.IH Inr by simp
  qed
qed

lemma wl_display_iterate_no_frame:
  "no_frame_yet st \<Longrightarrow> result_inv no_frame_yet id (wl_display_iterate m b st)"
  unfolding wl_display_iterate_def
  by (rule dispatch_all_no_frame) (simp add: no_frame_yet_def emit_def)

lemma wait_configured_no_frame:
  "no_frame_yet st \<Longrightarrow> result_inv no_frame_yet snd (wait_configured bs st)"
proof (induction bs arbitrary: st)
  case Nil
  then show ?case
    by (auto simp: blocked_def result_inv_def no_frame_yet_def emit_def)
next
  case (Cons b bs)
  show ?case
  proof (cases "wl_display_iterate (mask_d (disp st)) b st")
    case (Inl a)
    then show ?thesis
      using wl_display_iterate_no_frame[OF Cons.prems, of "mask_d (disp st)" b] Cons.prems
      by (simp add: result_inv_def)
  next
    case (Inr st')
    then have "no_frame_yet st'"
      using wl_display_iterate_no_frame[OF Cons.prems, of "mask_d (disp st)" b]
      by (simp add: result_inv_def)
    then show ?thesis using Cons.IH Inr Cons.prems by (simp add: result_inv_def)
  qed
qed

lemma init_egl_no_frame: "no_frame_yet st \<Longrightarrow> result_inv no_frame_yet id (init_egl a st)"
  by (simp add: init_egl_def Let_def create_opt_def create_def assert_def bind_r_def emit_def
      result_inv_def no_frame_yet_def)

lemma create_shader_no_frame:
  "no_frame_yet st \<Longrightarrow> result_inv no_frame_yet snd (create_shader ty st)"
  by (simp add: create_shader_def Let_def create_opt_def create_def emits_def emit_def
      result_inv_def no_frame_yet_def)

lemma init_gl_no_frame: "no_frame_yet st \<Longrightarrow> result_inv no_frame_yet id (init_gl st)"
  unfolding init_gl_def Let_def
  apply (rule result_inv_bind[where P = no_frame_yet and f = snd])
   apply (rule create_shader_no_frame)
   apply (simp add: no_frame_yet_def emit_def)
  apply (clarsimp)
  apply (rule result_inv_bind[where P = no_frame_yet and f = snd])
   apply (rule create_shader_no_frame)
   apply assumption
  apply (clarsimp simp: create_def emits_def emit_def result_inv_def no_frame_yet_def)
  done

lemma create_surface_no_frame:
  "no_frame_yet st \<Longrightarrow> result_inv no_frame_yet snd (create_surface bs st)"
proof (cases "compositor (disp st)")
  case None
  assume "no_frame_yet st"
  then show ?thesis using None
    by (simp add: create_surface_def on_object_def bind_r_def result_inv_def no_frame_yet_def)
next
  case (Some comp)
  assume a: "no_frame_yet st"
  show ?thesis
  proof (cases "shell (disp st)")
    case None
    then show ?thesis using Some a
      by (simp add: create_surface_def on_object_def bind_r_def result_inv_def no_frame_yet_def
          create_def Let_def)
  next
    case sh: (Some sh)
    show ?thesis
    proof (cases "fullscreen (win st)")
      case False
      then show ?thesis using Some sh a
        by (simp add: create_surface_def on_object_def bind_r_def result_inv_def no_frame_yet_def
            create_def Let_def emit_def assert_def)
    next
      case True
      then show ?thesis using Some sh a
        apply (simp add: create_surface_def on_object_def bind_r_Inr create_def Let_def emit_def)
        apply (rule result_inv_bind[where P = no_frame_yet and f = snd])
         apply (rule wait_configured_no_frame)
         apply (simp add: no_frame_yet_def emit_def)
        apply (clarsimp simp: emit_def assert_def bind_r_def result_inv_def no_frame_yet_def)
        done
    qed
  qed
qed

lemma ok_trace_ok_from: "ok_trace rs = ok_from [] rs"
  using ok_trace_append[of "[]" rs] by simp

lemma redraw_first:
  "no_frame_yet st \<Longrightarrow>
   result_inv (\<lambda>st. callback_inv st \<and> start_time st = 0 \<and> rotations (trace st) = [0]) id
     (redraw None 0 st)"
  by (cases "surface (win st)")
     (auto simp: redraw_def Let_def bind_r_def on_object_def emits_def emit_def create_def
      callback_inv_def result_inv_def no_frame_yet_def angle_degrees_def)

lemma startup_tail_inv:
  assumes "no_frame_yet st"
  shows "result_inv (\<lambda>st. callback_inv st \<and> start_time st = 0 \<and> rotations (trace st) = [0]) snd
     (bind_r (init_egl a st) (\<lambda>st.
         bind_r (create_surface bs st) (\<lambda>(inbox, st).
         bind_r (init_gl st) (\<lambda>st.
         bind_r (redraw None 0 (emit Sigaction_SIGINT (st\<lparr>sigint_handler := True\<rparr>)))
           (\<lambda>st. Inr (inbox, st))))))"
  apply (rule result_inv_bind[where P = no_frame_yet and f = id])
   apply (rule init_egl_no_frame[OF assms])
  apply (rule result_inv_bind[where P = no_frame_yet and f = snd])
   apply (rule create_surface_no_frame)
   apply simp
  apply (clarsimp simp: Let_def)
  apply (rule result_inv_bind[where P = no_frame_yet and f = id])
   apply (rule init_gl_no_frame)
   apply assumption
  apply (rule result_inv_bind[where f = id])
   apply (rule redraw_first)
   apply (simp add: no_frame_yet_def emit_def)
  apply (simp add: result_inv_def)
  done

lemma startup_inv:
  "result_inv (\<lambda>st. callback_inv st \<and> start_time st = 0 \<and> rotations (trace st) = [0]) snd
     (startup argv inbox e)"
proof (cases "connect_ok e")
  case False
  then show ?thesis
    by (simp add: startup_def Let_def create_opt_def initial_state_def assert_def bind_r_Inl
        result_inv_def)
next
  case True
  show ?thesis
  proof (cases inbox)
    case Nil
    then show ?thesis using True
      by (simp add: startup_def Let_def create_opt_def create_def initial_state_def assert_def
          bind_r_Inl bind_r_Inr result_inv_def blocked_def emits_def emit_def ok_trace_ok_from)
  next
    case (Cons b bs)
    let ?st = "emits [Wl Wl_display_add_global_listener, Wl Wl_display_get_fd]
       ((if fullscreen_requested argv
         then (initial_state e)\<lparr>win := (win (initial_state e))\<lparr>geometry_width := 250, geometry_height := 250, fullscreen := True\<rparr>\<rparr>
         else (initial_state e)\<lparr>win := (win (initial_state e))\<lparr>geometry_width := 250, geometry_height := 250\<rparr>\<rparr>)
        \<lparr>next_id := Suc (Suc 0), trace := [Wl (Wl_display_connect (Suc 0))],
          disp := (disp (initial_state e))\<lparr>display := Some (Suc 0)\<rparr>\<rparr>)"
    have nf: "no_frame_yet ?st"
      by (simp add: no_frame_yet_def emits_def initial_state_def ok_trace_ok_from
          callbacks_outstanding_def)
    have eq: "startup argv inbox e =
      bind_r (bind_r (wl_display_iterate WL_DISPLAY_READABLE b ?st) (\<lambda>st. Inr (bs, st)))
        (\<lambda>(inbox, st). bind_r (init_egl (if fullscreen (win st) then 0 else 1) st) (\<lambda>st.
         bind_r (create_surface inbox st) (\<lambda>(inbox, st).
         bind_r (init_gl st) (\<lambda>st.
         let st = emit Sigaction_SIGINT (st\<lparr>sigint_handler := True\<rparr>)
         in bind_r (redraw None 0 st) (\<lambda>st. Inr (inbox, st))))))"
      using True Cons
      by (simp add: startup_def Let_def create_opt_def create_def initial_state_def assert_def
          bind_r_Inr)
    show ?thesis
      unfolding eq
      apply (rule result_inv_bind[where P = no_frame_yet and f = snd])
       apply (rule result_inv_bind[where P = no_frame_yet and f = id])
        apply (rule wl_display_iterate_no_frame[OF nf])
       apply (simp add: result_inv_def)
      apply (clarsimp split del: if_split)
      apply (rule startup_tail_inv)
      apply assumption
      done
  qed
qed

lemma main_ok_trace: "ok_trace (trace (final_state (main argv inbox e)))"
proof (cases "startup argv inbox e")
  case (Inl a)
  then show ?thesis using startup_inv[of argv inbox e]
    by (cases a) (simp add: main_def bind_r_Inl result_inv_def final_state_def)
next
  case (Inr p)
  obtain bs st where p: "p = (bs, st)" by (cases p)
  have inv: "callback_inv st" using startup_inv[of argv inbox e] Inr p
    by (simp add: result_inv_def)
  show ?thesis
  proof (cases "main_loop bs st")
    case (Inl a)
    then show ?thesis using main_loop_inv[OF inv, of bs] Inr p
      by (cases a) (simp add: main_def bind_r_Inl bind_r_Inr result_inv_def final_state_def)
  next
    case st': (Inr st')
    then have "callback_inv st'" using main_loop_inv[OF inv, of bs]
      by (simp add: result_inv_def)
    then show ?thesis using teardown_inv[of st'] Inr p st'
      by (simp add: main_def bind_r_Inr)
  qed
qed

subsection \<open>The frame callback\<close>

lemma frame_request_alone:
  assumes "ok_trace tr" and "n < length tr" and "tr ! n = Wl (Wl_surface_frame s c)"
  shows "callbacks_outstanding (take (Suc n) tr) = [c]"
proof -
  have t: "take (Suc n) tr = take n tr @ [Wl (Wl_surface_frame s c)]"
    using assms(2,3) by (simp add: take_Suc_conv_app_nth)
  have "length (callbacks_outstanding (take (Suc n) tr)) \<le> 1"
    using assms(1) unfolding ok_trace_def by blast
  then have "callbacks_outstanding (take n tr) = []" by (simp add: t)
  then show ?thesis by (simp add: t)
qed

text \<open>
  C2. In every run of \<open>main\<close>, whatever the arguments, the events and the answers of
  the libraries, and whether it returns or stops, no prefix of the trace leaves more than
  one frame callback outstanding, and right after each \<open>wl_surface_frame\<close> request the
  callback it created is the only one outstanding. For the handler itself: called with
  the callback that is outstanding (or with NULL when none is), \<open>redraw\<close>, when it
  returns, has destroyed that callback, has requested a new one, which is then the only
  one outstanding and the one the window holds, and at no point in between were two
  outstanding.
\<close>

theorem one_frame_request_outstanding:
  "(\<forall>n. length (callbacks_outstanding (take n (trace (final_state (main argv inbox e))))) \<le> 1)
   \<and> (\<forall>n s c. n < length (trace (final_state (main argv inbox e)))
         \<and> trace (final_state (main argv inbox e)) ! n = Wl (Wl_surface_frame s c) \<longrightarrow>
         callbacks_outstanding (take (Suc n) (trace (final_state (main argv inbox e)))) = [c])
   \<and> (callbacks_outstanding (trace st) = (case cb of None \<Rightarrow> [] | Some c \<Rightarrow> [c])
        \<and> redraw cb t st = Inr st' \<longrightarrow>
          callbacks_outstanding (trace st') = [next_id st]
          \<and> callback (win st') = Some (next_id st)
          \<and> take (length (trace st)) (trace st') = trace st
          \<and> ok_from (callbacks_outstanding (trace st)) (drop (length (trace st)) (trace st'))
          \<and> (\<forall>c. cb = Some c \<longrightarrow>
                Wl (Wl_callback_destroy c) \<in> set (drop (length (trace st)) (trace st'))))"
proof -
  have ok: "ok_trace (trace (final_state (main argv inbox e)))" by (rule main_ok_trace)
  then have "\<forall>n. length (callbacks_outstanding (take n (trace (final_state (main argv inbox e))))) \<le> 1"
    by (simp add: ok_trace_def)
  moreover have "\<forall>n s c. n < length (trace (final_state (main argv inbox e)))
         \<and> trace (final_state (main argv inbox e)) ! n = Wl (Wl_surface_frame s c) \<longrightarrow>
         callbacks_outstanding (take (Suc n) (trace (final_state (main argv inbox e)))) = [c]"
    using frame_request_alone[OF ok] by blast
  ultimately show ?thesis
    using redraw_rearms[of st cb t st'] by blast
qed

lemma main_sample:
  "main [''simple-egl''] [announce] all_ok = blocked 0 started"
  by (simp add: main_def startup_started bind_r_def started_fields blocked_def started_eq)

theorem one_frame_request_outstanding_witness:
  "47 < length (trace (final_state (main [''simple-egl''] [announce] all_ok)))
   \<and> trace (final_state (main [''simple-egl''] [announce] all_ok)) ! 47 = Wl (Wl_surface_frame 7 15)
   \<and> callbacks_outstanding (take 48 (trace (final_state (main [''simple-egl''] [announce] all_ok)))) = [15]
   \<and> callbacks_outstanding (trace started) = [15]
   \<and> redraw (Some 15) 1000 started = Inr animated
   \<and> callbacks_outstanding (trace animated) = [16]
   \<and> callback (win animated) = Some 16
   \<and> Wl (Wl_callback_destroy 15) \<in> set (drop (length (trace started)) (trace animated))"
proof -
  have a: "47 < length (trace (final_state (main [''simple-egl''] [announce] all_ok)))"
    and b: "trace (final_state (main [''simple-egl''] [announce] all_ok)) ! 47 = Wl (Wl_surface_frame 7 15)"
    by (simp_all add: main_sample blocked_def final_state_def emit_def started_eq)
  have c: "callbacks_outstanding (trace started) = (case Some 15 of None \<Rightarrow> [] | Some c \<Rightarrow> [c])"
    by (simp add: started_fields)
  note th = one_frame_request_outstanding[of "[''simple-egl'']" "[announce]" all_ok started
      "Some 15" 1000 animated]
  have "callbacks_outstanding
      (take (Suc 47) (trace (final_state (main [''simple-egl''] [announce] all_ok)))) = [15]"
    using th a b by blast
  then show ?thesis
    using th a b c redraw_animated by (simp add: started_fields)
qed

subsection \<open>The start time\<close>

text \<open>
  C10. In every run the first call of \<open>redraw\<close>, with time 0, leaves the start time 0
  and uploads the angle 0, the only upload so far. Whenever \<open>redraw\<close> is entered with
  the start time 0 it takes the time of the call for the start time and uploads the
  angle 0; so a call with time 0 leaves the start time 0, as if no call had been, and
  the first call with a nonzero time sets it. A nonzero start time stays.
\<close>

theorem start_time_zero_means_unset:
  "(startup argv inbox e = Inr (bs, st0) \<longrightarrow> start_time st0 = 0 \<and> rotations (trace st0) = [0])
   \<and> (redraw cb t st = Inr st' \<longrightarrow>
        start_time st' = (if start_time st = 0 then t else start_time st)
        \<and> (start_time st = 0 \<longrightarrow> rotations (trace st') = rotations (trace st) @ [0]))"
proof -
  have "startup argv inbox e = Inr (bs, st0) \<longrightarrow> start_time st0 = 0 \<and> rotations (trace st0) = [0]"
    using startup_inv[of argv inbox e] by (auto simp: result_inv_def)
  moreover have "redraw cb t st = Inr st' \<longrightarrow>
        start_time st' = (if start_time st = 0 then t else start_time st)
        \<and> (start_time st = 0 \<longrightarrow> rotations (trace st') = rotations (trace st) @ [0])"
    using redraw_Inr[of cb t st st'] by (auto simp: angle_degrees_def)
  ultimately show ?thesis by blast
qed

theorem start_time_zero_means_unset_witness:
  "startup [''simple-egl''] [announce] all_ok = Inr ([], started)
   \<and> start_time started = 0 \<and> rotations (trace started) = [0]
   \<and> redraw (Some 15) 1000 started = Inr animated
   \<and> start_time animated = 1000 \<and> rotations (trace animated) = [0, 0]"
  using start_time_zero_means_unset[of "[''simple-egl'']" "[announce]" all_ok "[]" started
      "Some 15" 1000 started animated] startup_started redraw_animated
  by (simp add: started_fields animated_fields)

subsection \<open>Teardown\<close>

text \<open>
  C6. On a window whose native window, shell surface and surface exist,
  \<open>destroy_surface\<close> records exactly the destruction of the native window, then of the
  shell surface, then of the surface, then of the callback the window holds if it holds
  one, and nothing when it holds none. The end of \<open>main\<close> then releases EGL, destroys
  the shell if one was bound and the compositor if one was bound, and nothing for one
  that was never bound, before it flushes and disconnects.
\<close>

theorem teardown_order:
  "native (win st) = Some n \<and> shell_surface (win st) = Some ss \<and> surface (win st) = Some s \<longrightarrow>
     destroy_surface st =
       Inr (st\<lparr>trace := trace st @
              [Wl (Wl_egl_window_destroy n), Wl (Wl_shell_surface_destroy ss),
               Wl (Wl_surface_destroy s)]
              @ (case callback (win st) of Some c \<Rightarrow> [Wl (Wl_callback_destroy c)] | None \<Rightarrow> [])\<rparr>)
     \<and> teardown st =
       Inr (st\<lparr>trace := trace st @
              [Stderr (''simple-egl exiting'' @ [CHR 0x0A]),
               Wl (Wl_egl_window_destroy n), Wl (Wl_shell_surface_destroy ss),
               Wl (Wl_surface_destroy s)]
              @ (case callback (win st) of Some c \<Rightarrow> [Wl (Wl_callback_destroy c)] | None \<Rightarrow> [])
              @ [Egl (EglMakeCurrent None None), Egl EglTerminate, Egl EglReleaseThread]
              @ (case shell (disp st) of Some h \<Rightarrow> [Wl (Wl_shell_destroy h)] | None \<Rightarrow> [])
              @ (case compositor (disp st) of Some h \<Rightarrow> [Wl (Wl_compositor_destroy h)] | None \<Rightarrow> [])
              @ [Wl Wl_display_flush, Wl Wl_display_disconnect]\<rparr>)"
  by (cases "callback (win st)"; cases "shell (disp st)"; cases "compositor (disp st)")
     (simp_all add: teardown_def destroy_surface_def fini_egl_def on_object_def bind_r_def
        emits_def emit_def Let_def)

theorem teardown_order_witness:
  "native (win started) = Some 9 \<and> shell_surface (win started) = Some 8
   \<and> surface (win started) = Some 7
   \<and> destroy_surface started =
       Inr (started\<lparr>trace := trace started @
              [Wl (Wl_egl_window_destroy 9), Wl (Wl_shell_surface_destroy 8),
               Wl (Wl_surface_destroy 7), Wl (Wl_callback_destroy 15)]\<rparr>)
   \<and> teardown (started\<lparr>disp := (disp started)\<lparr>shell := None\<rparr>,
                        win := (win started)\<lparr>callback := None\<rparr>\<rparr>) =
       Inr (started\<lparr>disp := (disp started)\<lparr>shell := None\<rparr>,
                    win := (win started)\<lparr>callback := None\<rparr>,
                    trace := trace started @
              [Stderr (''simple-egl exiting'' @ [CHR 0x0A]),
               Wl (Wl_egl_window_destroy 9), Wl (Wl_shell_surface_destroy 8),
               Wl (Wl_surface_destroy 7),
               Egl (EglMakeCurrent None None), Egl EglTerminate, Egl EglReleaseThread,
               Wl (Wl_compositor_destroy 2),
               Wl Wl_display_flush, Wl Wl_display_disconnect]\<rparr>)"
  using teardown_order[of started 9 8 7]
    teardown_order[of "started\<lparr>disp := (disp started)\<lparr>shell := None\<rparr>,
                        win := (win started)\<lparr>callback := None\<rparr>\<rparr>" 9 8 7]
  by (simp add: started_fields)

subsection \<open>End to end\<close>

lemma main_argv:
  "fullscreen_requested argv = fullscreen_requested argv' \<Longrightarrow> main argv inbox e = main argv' inbox e"
  by (simp add: main_def startup_def)

lemma run_windowed:
  "\<exists>st2 st3. main [''simple-egl''] (butlast scenario) all_ok = Inl (Blocked, st2)
     \<and> main [''simple-egl''] scenario all_ok = Inl (Blocked, st3)
     \<and> viewports (trace st3) = [(250, 250)]
     \<and> geometry_width (win st3) = 300 \<and> geometry_height (win st3) = 200
     \<and> rotations (trace st2) = [0] \<and> rotations (trace st3) = [0, 0]
     \<and> frames_drawn (trace st2) = 1 \<and> frames_drawn (trace st3) = 2
     \<and> frame_requests (trace st2) = [15] \<and> frame_requests (trace st3) = [15, 16]
     \<and> callbacks_outstanding (trace st2) = [15] \<and> callbacks_outstanding (trace st3) = [16]
     \<and> start_time st2 = 0 \<and> start_time st3 = 100"
  by (simp add: scenario_def run_defs)

lemma run_fullscreen:
  "\<exists>st2 st3. main [''simple-egl'', ''-x''] (butlast scenario) all_ok = Inl (Blocked, st2)
     \<and> main [''simple-egl'', ''-x''] scenario all_ok = Inl (Blocked, st3)
     \<and> viewports (trace st3) = [(300, 200)]
     \<and> geometry_width (win st3) = 300 \<and> geometry_height (win st3) = 200
     \<and> rotations (trace st2) = [0] \<and> rotations (trace st3) = [0, 0]
     \<and> frames_drawn (trace st2) = 1 \<and> frames_drawn (trace st3) = 2
     \<and> frame_requests (trace st2) = [15] \<and> frame_requests (trace st3) = [15, 16]
     \<and> callbacks_outstanding (trace st2) = [15] \<and> callbacks_outstanding (trace st3) = [16]
     \<and> start_time st2 = 0 \<and> start_time st3 = 100"
  by (simp add: scenario_def run_defs)

text \<open>
  C1, as the code has it. On the scenario, with every library call succeeding and for
  every argument vector: before the frame callback arrives \<open>main\<close> has drawn its first
  frame (time 0, angle 0) and requested callback 15. The handler for the callback at time
  100 draws exactly one more frame, at angle 0 (100 becomes the start time), destroys
  callback 15 and requests exactly one new callback, 16, the only one outstanding
  afterwards. The viewport is set once: 300 by 200 when the window is fullscreen (the
  configure arrives while \<open>create_surface\<close> waits), 250 by 250 when it is not (the
  configure arrives in the main loop, and only the stored geometry becomes 300 by 200).
\<close>

theorem end_to_end_scenario:
  "viewports (trace (final_state (main argv scenario all_ok))) =
      [if fullscreen_requested argv then (300, 200) else (250, 250)]
   \<and> geometry_width (win (final_state (main argv scenario all_ok))) = 300
   \<and> geometry_height (win (final_state (main argv scenario all_ok))) = 200
   \<and> rotations (trace (final_state (main argv (butlast scenario) all_ok))) = [0]
   \<and> rotations (trace (final_state (main argv scenario all_ok))) = [0, 0]
   \<and> frames_drawn (trace (final_state (main argv (butlast scenario) all_ok))) = 1
   \<and> frames_drawn (trace (final_state (main argv scenario all_ok))) = 2
   \<and> frame_requests (trace (final_state (main argv (butlast scenario) all_ok))) = [15]
   \<and> frame_requests (trace (final_state (main argv scenario all_ok))) = [15, 16]
   \<and> callbacks_outstanding (trace (final_state (main argv (butlast scenario) all_ok))) = [15]
   \<and> callbacks_outstanding (trace (final_state (main argv scenario all_ok))) = [16]
   \<and> start_time (final_state (main argv (butlast scenario) all_ok)) = 0
   \<and> start_time (final_state (main argv scenario all_ok)) = 100"
proof (cases "fullscreen_requested argv")
  case True
  have "fullscreen_requested argv = fullscreen_requested [''simple-egl'', ''-x'']"
    using True by (simp add: fullscreen_requested_def)
  then have eq: "main argv inbox all_ok = main [''simple-egl'', ''-x''] inbox all_ok" for inbox
    by (rule main_argv)
  obtain st2 st3 where "main [''simple-egl'', ''-x''] (butlast scenario) all_ok = Inl (Blocked, st2)"
    "main [''simple-egl'', ''-x''] scenario all_ok = Inl (Blocked, st3)"
    "viewports (trace st3) = [(300, 200)]"
    "geometry_width (win st3) = 300 \<and> geometry_height (win st3) = 200"
    "rotations (trace st2) = [0] \<and> rotations (trace st3) = [0, 0]"
    "frames_drawn (trace st2) = 1 \<and> frames_drawn (trace st3) = 2"
    "frame_requests (trace st2) = [15] \<and> frame_requests (trace st3) = [15, 16]"
    "callbacks_outstanding (trace st2) = [15] \<and> callbacks_outstanding (trace st3) = [16]"
    "start_time st2 = 0 \<and> start_time st3 = 100"
    using run_fullscreen by blast
  then show ?thesis using True by (simp add: eq final_state_def)
next
  case False
  have "fullscreen_requested argv = fullscreen_requested [''simple-egl'']"
    using False by (simp add: fullscreen_requested_def)
  then have eq: "main argv inbox all_ok = main [''simple-egl''] inbox all_ok" for inbox
    by (rule main_argv)
  obtain st2 st3 where "main [''simple-egl''] (butlast scenario) all_ok = Inl (Blocked, st2)"
    "main [''simple-egl''] scenario all_ok = Inl (Blocked, st3)"
    "viewports (trace st3) = [(250, 250)]"
    "geometry_width (win st3) = 300 \<and> geometry_height (win st3) = 200"
    "rotations (trace st2) = [0] \<and> rotations (trace st3) = [0, 0]"
    "frames_drawn (trace st2) = 1 \<and> frames_drawn (trace st3) = 2"
    "frame_requests (trace st2) = [15] \<and> frame_requests (trace st3) = [15, 16]"
    "callbacks_outstanding (trace st2) = [15] \<and> callbacks_outstanding (trace st3) = [16]"
    "start_time st2 = 0 \<and> start_time st3 = 100"
    using run_windowed by blast
  then show ?thesis using False by (simp add: eq final_state_def)
qed

text \<open>
  C1 as stated fails in both modes: two frames are drawn, both at angle 0, none at 20
  degrees; and the windowed client's viewport is 250 by 250.
\<close>

theorem end_to_end_counterexample:
  "rotations (trace (final_state (main [''simple-egl'', ''-x''] scenario all_ok))) = [0, 0]
   \<and> 20 \<notin> set (rotations (trace (final_state (main [''simple-egl'', ''-x''] scenario all_ok))))
   \<and> frames_drawn (trace (final_state (main [''simple-egl'', ''-x''] scenario all_ok))) = 2
   \<and> rotations (trace (final_state (main [''simple-egl''] scenario all_ok))) = [0, 0]
   \<and> viewports (trace (final_state (main [''simple-egl''] scenario all_ok))) = [(250, 250)]"
proof -
  obtain st3 where "main [''simple-egl'', ''-x''] scenario all_ok = Inl (Blocked, st3)"
    "rotations (trace st3) = [0, 0]" "frames_drawn (trace st3) = 2"
    using run_fullscreen by blast
  moreover obtain st3' where "main [''simple-egl''] scenario all_ok = Inl (Blocked, st3')"
    "rotations (trace st3') = [0, 0]" "viewports (trace st3') = [(250, 250)]"
    using run_windowed by blast
  ultimately show ?thesis by (simp add: final_state_def)
qed

subsection \<open>Geometry\<close>

lemma result_all_bind:
  assumes "result_all P f r" and "\<And>x. r = Inr x \<Longrightarrow> P (f x) \<Longrightarrow> result_all Q g (k x)"
    and "\<And>st. P st \<Longrightarrow> Q st"
  shows "result_all Q g (bind_r r k)"
  using assms by (cases r) (auto simp: result_all_def bind_r_def)

lemma redraw_geometry:
  "positive_geometry st \<Longrightarrow> result_all positive_geometry id (redraw cb t st)"
  by (cases "surface (win st)"; cases cb)
     (simp_all add: redraw_unfold result_all_def positive_geometry_def emits_def emit_def)

lemma dispatch_geometry:
  "positive_geometry st \<Longrightarrow> positive_configure ev \<Longrightarrow>
   result_all positive_geometry id (dispatch ev st)"
proof (cases ev)
  case (Frame_done c t)
  assume "positive_geometry st"
  then show ?thesis using Frame_done redraw_geometry[of st "Some c" t]
    by (simp add: result_all_def)
qed (auto simp: result_all_def positive_geometry_def display_handle_global_def create_def
      emit_def event_mask_update_def handle_ping_def handle_configure_def handle_popup_done_def
      input_handle_pointer_enter_def signal_int_def)

lemma dispatch_all_geometry:
  "positive_geometry st \<Longrightarrow> \<forall>ev\<in>set evs. positive_configure ev \<Longrightarrow>
   result_all positive_geometry id (dispatch_all evs st)"
proof (induction evs arbitrary: st)
  case Nil
  then show ?case by (simp add: result_all_def)
next
  case (Cons ev evs)
  have d: "result_all positive_geometry id (dispatch ev st)"
    using Cons.prems by (simp add: dispatch_geometry)
  show ?case
  proof (cases "dispatch ev st")
    case (Inl a)
    then show ?thesis using d by (simp add: result_all_def)
  next
    case (Inr st')
    then have "positive_geometry st'" using d by (simp add: result_all_def)
    then show ?thesis using Cons.IH[of st'] Cons.prems(2) Inr by simp
  qed
qed

lemma wl_display_iterate_geometry:
  "positive_geometry st \<Longrightarrow> \<forall>ev\<in>set b. positive_configure ev \<Longrightarrow>
   result_all positive_geometry id (wl_display_iterate m b st)"
  unfolding wl_display_iterate_def
  by (rule dispatch_all_geometry) (simp_all add: positive_geometry_def emit_def)

lemma wait_configured_geometry:
  "positive_geometry st \<Longrightarrow> \<forall>b\<in>set bs. \<forall>ev\<in>set b. positive_configure ev \<Longrightarrow>
   result_all positive_geometry snd (wait_configured bs st)"
proof (induction bs arbitrary: st)
  case Nil
  then show ?case
    by (simp add: blocked_def result_all_def positive_geometry_def emit_def)
next
  case (Cons b bs)
  have d: "result_all positive_geometry id (wl_display_iterate (mask_d (disp st)) b st)"
    using Cons.prems by (simp add: wl_display_iterate_geometry)
  show ?case
  proof (cases "wl_display_iterate (mask_d (disp st)) b st")
    case (Inl a)
    then show ?thesis using d Cons.prems(1) by (simp add: result_all_def)
  next
    case (Inr st')
    then have "positive_geometry st'" using d by (simp add: result_all_def)
    then show ?thesis using Cons.IH[of st'] Cons.prems Inr by (simp add: result_all_def)
  qed
qed

lemma wait_configured_suffix:
  "wait_configured bs st = Inr (bs', st') \<Longrightarrow> \<exists>k. bs' = drop k bs"
proof (induction bs arbitrary: st)
  case Nil
  then show ?case by (simp add: blocked_def split: if_splits)
next
  case (Cons b bs)
  show ?case
  proof (cases "configured (win st)")
    case True
    then have "bs' = drop 0 (b # bs)" using Cons.prems by simp
    then show ?thesis by blast
  next
    case False
    then obtain st1 where "wait_configured bs st1 = Inr (bs', st')"
      using Cons.prems by (auto split: sum.splits)
    then obtain k where "bs' = drop k bs" using Cons.IH by blast
    then have "bs' = drop (Suc k) (b # bs)" by simp
    then show ?thesis by blast
  qed
qed

lemma main_loop_geometry:
  "positive_geometry st \<Longrightarrow> \<forall>b\<in>set bs. \<forall>ev\<in>set b. positive_configure ev \<Longrightarrow>
   result_all positive_geometry id (main_loop bs st)"
proof (induction bs arbitrary: st)
  case Nil
  then show ?case
    by (simp add: blocked_def result_all_def positive_geometry_def emit_def)
next
  case (Cons b bs)
  have d: "result_all positive_geometry id (wl_display_iterate (mask_d (disp st)) b st)"
    using Cons.prems by (simp add: wl_display_iterate_geometry)
  show ?case
  proof (cases "wl_display_iterate (mask_d (disp st)) b st")
    case (Inl a)
    then show ?thesis using d Cons.prems(1) by (simp add: result_all_def)
  next
    case (Inr st')
    then have "positive_geometry st'" using d by (simp add: result_all_def)
    then show ?thesis using Cons.IH[of st'] Cons.prems Inr by (simp add: result_all_def)
  qed
qed

lemma init_egl_geometry:
  "positive_geometry st \<Longrightarrow> result_all positive_geometry id (init_egl a st)"
  by (simp add: init_egl_def Let_def create_opt_def create_def assert_def bind_r_def emit_def
      result_all_def positive_geometry_def)

lemma create_shader_geometry:
  "positive_geometry st \<Longrightarrow> result_all positive_geometry snd (create_shader ty st)"
  by (simp add: create_shader_def Let_def create_opt_def create_def emits_def emit_def
      result_all_def positive_geometry_def)

lemma init_gl_geometry: "positive_geometry st \<Longrightarrow> result_all positive_geometry id (init_gl st)"
  unfolding init_gl_def Let_def
  apply (rule result_all_bind[where P = positive_geometry and f = snd])
    apply (rule create_shader_geometry)
    apply (simp add: positive_geometry_def emit_def)
   apply (clarsimp)
   apply (rule result_all_bind[where P = positive_geometry and f = snd])
     apply (rule create_shader_geometry)
     apply assumption
    apply (clarsimp simp: create_def emits_def emit_def result_all_def positive_geometry_def)
   apply assumption
  apply assumption
  done

lemma teardown_geometry:
  "positive_geometry st \<Longrightarrow> result_all positive_geometry id (teardown st)"
  by (auto simp: teardown_def destroy_surface_def fini_egl_def Let_def bind_r_def on_object_def
      emits_def emit_def positive_geometry_def result_all_def split: option.splits)

text \<open>\<open>create_surface\<close> when both proxies exist: the requests up to the choice of the
  mode, the wait in fullscreen mode, and the creation of the native window.\<close>

lemma create_surface_unfold:
  assumes "compositor (disp st) = Some cpr" and "shell (disp st) = Some sh"
  shows "create_surface bs st =
     bind_r (if fullscreen (win st)
             then wait_configured bs
                    (st\<lparr>next_id := Suc (Suc (next_id st)),
                        win := (win st)\<lparr>surface := Some (next_id st),
                                        shell_surface := Some (Suc (next_id st)),
                                        configured := False\<rparr>,
                        trace := trace st @
                          [Wl (Wl_compositor_create_surface cpr (next_id st)),
                           Wl (Wl_shell_get_shell_surface sh (Some (next_id st)) (Suc (next_id st))),
                           Wl (Wl_shell_surface_add_listener (Suc (next_id st))),
                           Wl (Wl_shell_surface_set_fullscreen (Suc (next_id st)))]\<rparr>)
             else Inr (bs,
                    st\<lparr>next_id := Suc (Suc (next_id st)),
                       win := (win st)\<lparr>surface := Some (next_id st),
                                       shell_surface := Some (Suc (next_id st))\<rparr>,
                       trace := trace st @
                          [Wl (Wl_compositor_create_surface cpr (next_id st)),
                           Wl (Wl_shell_get_shell_surface sh (Some (next_id st)) (Suc (next_id st))),
                           Wl (Wl_shell_surface_add_listener (Suc (next_id st))),
                           Wl (Wl_shell_surface_set_toplevel (Suc (next_id st)))]\<rparr>))
       (\<lambda>(bs', st1).
          if egl_make_current_ok (env st1)
          then Inr (bs',
                 st1\<lparr>next_id := Suc (Suc (next_id st1)),
                     win := (win st1)\<lparr>native := Some (next_id st1),
                                      egl_surface := Some (Suc (next_id st1))\<rparr>,
                     trace := trace st1 @
                       [Wl (Wl_egl_window_create (next_id st) (geometry_width (win st1))
                              (geometry_height (win st1)) (next_id st1)),
                        Egl (EglCreateWindowSurface (Some (next_id st1)) (Suc (next_id st1))),
                        Egl (EglMakeCurrent (Some (Suc (next_id st1))) (egl_ctx (disp st1)))]\<rparr>)
          else Inl (Assert_failed,
                 st1\<lparr>next_id := Suc (Suc (next_id st1)),
                     win := (win st1)\<lparr>native := Some (next_id st1),
                                      egl_surface := Some (Suc (next_id st1))\<rparr>,
                     trace := trace st1 @
                       [Wl (Wl_egl_window_create (next_id st) (geometry_width (win st1))
                              (geometry_height (win st1)) (next_id st1)),
                        Egl (EglCreateWindowSurface (Some (next_id st1)) (Suc (next_id st1))),
                        Egl (EglMakeCurrent (Some (Suc (next_id st1))) (egl_ctx (disp st1)))]\<rparr>))"
proof -
  have k: "(\<lambda>(inbox', st1).
     let (n, st2) = create (\<lambda>n. Wl (Wl_egl_window_create (next_id st) (geometry_width (win st1))
                                      (geometry_height (win st1)) n)) st1;
         st2 = st2\<lparr>win := (win st2)\<lparr>native := Some n\<rparr>\<rparr>;
         (es, st2) = create (\<lambda>es. Egl (EglCreateWindowSurface (native (win st2)) es)) st2;
         st2 = st2\<lparr>win := (win st2)\<lparr>egl_surface := Some es\<rparr>\<rparr>;
         ret = egl_make_current_ok (env st2);
         st2 = emit (Egl (EglMakeCurrent (egl_surface (win st2)) (egl_ctx (disp st2)))) st2
     in bind_r (assert ret st2) (\<lambda>st. Inr (inbox', st)))
   = (\<lambda>(bs', st1).
          if egl_make_current_ok (env st1)
          then Inr (bs',
                 st1\<lparr>next_id := Suc (Suc (next_id st1)),
                     win := (win st1)\<lparr>native := Some (next_id st1),
                                      egl_surface := Some (Suc (next_id st1))\<rparr>,
                     trace := trace st1 @
                       [Wl (Wl_egl_window_create (next_id st) (geometry_width (win st1))
                              (geometry_height (win st1)) (next_id st1)),
                        Egl (EglCreateWindowSurface (Some (next_id st1)) (Suc (next_id st1))),
                        Egl (EglMakeCurrent (Some (Suc (next_id st1))) (egl_ctx (disp st1)))]\<rparr>)
          else Inl (Assert_failed,
                 st1\<lparr>next_id := Suc (Suc (next_id st1)),
                     win := (win st1)\<lparr>native := Some (next_id st1),
                                      egl_surface := Some (Suc (next_id st1))\<rparr>,
                     trace := trace st1 @
                       [Wl (Wl_egl_window_create (next_id st) (geometry_width (win st1))
                              (geometry_height (win st1)) (next_id st1)),
                        Egl (EglCreateWindowSurface (Some (next_id st1)) (Suc (next_id st1))),
                        Egl (EglMakeCurrent (Some (Suc (next_id st1))) (egl_ctx (disp st1)))]\<rparr>))"
    by (rule ext) (simp add: create_def Let_def emit_def assert_def bind_r_def split: prod.splits)
  show ?thesis
    unfolding k[symmetric]
    by (simp add: create_surface_def on_object_def bind_r_Inr create_def Let_def emit_def assms)
qed

lemma create_surface_no_object:
  "compositor (disp st) = None \<Longrightarrow> create_surface bs st = Inl (Null_object, st)"
  "compositor (disp st) = Some cpr \<Longrightarrow> shell (disp st) = None \<Longrightarrow>
   create_surface bs st =
     Inl (Null_object,
          st\<lparr>next_id := Suc (next_id st), win := (win st)\<lparr>surface := Some (next_id st)\<rparr>,
             trace := trace st @ [Wl (Wl_compositor_create_surface cpr (next_id st))]\<rparr>)"
  by (simp_all add: create_surface_def on_object_def bind_r_def create_def Let_def)

lemma create_surface_geometry:
  assumes "positive_geometry st" and "\<forall>b\<in>set bs. \<forall>ev\<in>set b. positive_configure ev"
  shows "result_all positive_geometry snd (create_surface bs st)"
proof (cases "compositor (disp st)")
  case None
  then show ?thesis using assms(1) by (simp add: create_surface_no_object result_all_def)
next
  case (Some cpr)
  show ?thesis
  proof (cases "shell (disp st)")
    case None
    then show ?thesis using assms(1) Some
      by (simp add: create_surface_no_object result_all_def positive_geometry_def)
  next
    case sh: (Some sh)
    show ?thesis
      unfolding create_surface_unfold[OF Some sh]
      apply (rule result_all_bind[where P = positive_geometry and f = snd])
        apply (cases "fullscreen (win st)")
         apply simp
         apply (rule wait_configured_geometry)
          apply (simp add: positive_geometry_def assms(1)[unfolded positive_geometry_def])
         apply (rule assms(2))
        apply (simp add: result_all_def positive_geometry_def assms(1)[unfolded positive_geometry_def])
       apply (clarsimp simp: result_all_def positive_geometry_def)
      apply assumption
      done
  qed
qed

lemma create_surface_suffix:
  assumes "create_surface bs st = Inr (bs', st')"
  shows "\<exists>k. bs' = drop k bs"
proof (cases "compositor (disp st)")
  case None
  then show ?thesis using assms by (simp add: create_surface_no_object)
next
  case (Some cpr)
  show ?thesis
  proof (cases "shell (disp st)")
    case None
    then show ?thesis using assms Some by (simp add: create_surface_no_object)
  next
    case sh: (Some sh)
    show ?thesis
    proof (cases "fullscreen (win st)")
      case True
      then obtain st1 where "wait_configured bs
                    (st\<lparr>next_id := Suc (Suc (next_id st)),
                        win := (win st)\<lparr>surface := Some (next_id st),
                                        shell_surface := Some (Suc (next_id st)),
                                        configured := False\<rparr>,
                        trace := trace st @
                          [Wl (Wl_compositor_create_surface cpr (next_id st)),
                           Wl (Wl_shell_get_shell_surface sh (Some (next_id st)) (Suc (next_id st))),
                           Wl (Wl_shell_surface_add_listener (Suc (next_id st))),
                           Wl (Wl_shell_surface_set_fullscreen (Suc (next_id st)))]\<rparr>) = Inr (bs', st1)"
        using assms unfolding create_surface_unfold[OF Some sh]
        by (auto simp: bind_r_def split: sum.splits if_splits)
      then show ?thesis by (rule wait_configured_suffix)
    next
      case False
      then have "bs' = drop 0 bs"
        using assms unfolding create_surface_unfold[OF Some sh]
        by (auto simp: bind_r_def split: if_splits)
      then show ?thesis by blast
    qed
  qed
qed

lemma startup_unfold:
  assumes "connect_ok e"
  shows "startup argv (b # bs) e =
      bind_r (bind_r (wl_display_iterate WL_DISPLAY_READABLE b
          (emits [Wl Wl_display_add_global_listener, Wl Wl_display_get_fd]
            ((if fullscreen_requested argv
              then (initial_state e)\<lparr>win := (win (initial_state e))\<lparr>geometry_width := 250,
                      geometry_height := 250, fullscreen := True\<rparr>\<rparr>
              else (initial_state e)\<lparr>win := (win (initial_state e))\<lparr>geometry_width := 250,
                      geometry_height := 250\<rparr>\<rparr>)
             \<lparr>next_id := Suc (Suc 0), trace := [Wl (Wl_display_connect (Suc 0))],
               disp := (disp (initial_state e))\<lparr>display := Some (Suc 0)\<rparr>\<rparr>)))
          (\<lambda>st. Inr (bs, st)))
        (\<lambda>(inbox, st). bind_r (init_egl (if fullscreen (win st) then 0 else 1) st) (\<lambda>st.
         bind_r (create_surface inbox st) (\<lambda>(inbox, st).
         bind_r (init_gl st) (\<lambda>st.
         bind_r (redraw None 0 (emit Sigaction_SIGINT (st\<lparr>sigint_handler := True\<rparr>)))
           (\<lambda>st. Inr (inbox, st))))))"
  using assms
  by (simp add: startup_def Let_def create_opt_def create_def initial_state_def assert_def
      bind_r_Inr)

lemma startup_stops_early:
  "\<not> connect_ok e \<Longrightarrow> \<exists>st. startup argv inbox e = Inl (Assert_failed, st) \<and> trace st = []
      \<and> geometry_width (win st) = 250 \<and> geometry_height (win st) = 250"
  "connect_ok e \<Longrightarrow> \<exists>st. startup argv [] e = Inl (Blocked, st)
      \<and> geometry_width (win st) = 250 \<and> geometry_height (win st) = 250"
  by (simp_all add: startup_def Let_def create_opt_def create_def initial_state_def assert_def
      bind_r_def blocked_def emits_def emit_def)

lemma startup_tail_geometry:
  assumes "positive_geometry st" and "\<forall>b\<in>set bs. \<forall>ev\<in>set b. positive_configure ev"
  shows "result_all positive_geometry snd
     (bind_r (init_egl a st) (\<lambda>st.
         bind_r (create_surface bs st) (\<lambda>(inbox, st).
         bind_r (init_gl st) (\<lambda>st.
         bind_r (redraw None 0 (emit Sigaction_SIGINT (st\<lparr>sigint_handler := True\<rparr>)))
           (\<lambda>st. Inr (inbox, st))))))"
  apply (rule result_all_bind[where P = positive_geometry and f = id])
    apply (rule init_egl_geometry[OF assms(1)])
   apply (rule result_all_bind[where P = positive_geometry and f = snd])
     apply (rule create_surface_geometry)
      apply simp
     apply (rule assms(2))
    apply (clarsimp)
    apply (rule result_all_bind[where P = positive_geometry and f = id])
      apply (rule init_gl_geometry)
      apply assumption
     apply (rule result_all_bind[where P = positive_geometry and f = id])
       apply (rule redraw_geometry)
       apply (simp add: positive_geometry_def emit_def)
      apply (simp add: result_all_def)
     apply assumption+
  done

lemma startup_tail_suffix:
  assumes "bind_r (init_egl a st) (\<lambda>st.
         bind_r (create_surface bs st) (\<lambda>(inbox, st).
         bind_r (init_gl st) (\<lambda>st.
         bind_r (redraw None 0 (emit Sigaction_SIGINT (st\<lparr>sigint_handler := True\<rparr>)))
           (\<lambda>st. Inr (inbox, st))))) = Inr (bs', st')"
  shows "\<exists>k. bs' = drop k bs"
proof -
  obtain st1 st2 where "create_surface bs st1 = Inr (bs', st2)"
    using assms by (auto simp: bind_r_def split: sum.splits prod.splits)
  then show ?thesis by (rule create_surface_suffix)
qed

lemma startup_geometry:
  assumes "\<forall>b\<in>set inbox. \<forall>ev\<in>set b. positive_configure ev"
  shows "result_all positive_geometry snd (startup argv inbox e)"
proof (cases "connect_ok e")
  case False
  then show ?thesis using startup_stops_early(1)[of e argv inbox]
    by (auto simp: result_all_def positive_geometry_def)
next
  case True
  show ?thesis
  proof (cases inbox)
    case Nil
    then show ?thesis using startup_stops_early(2)[OF True, of argv]
      by (auto simp: result_all_def positive_geometry_def)
  next
    case (Cons b bs)
    let ?st = "emits [Wl Wl_display_add_global_listener, Wl Wl_display_get_fd]
            ((if fullscreen_requested argv
              then (initial_state e)\<lparr>win := (win (initial_state e))\<lparr>geometry_width := 250,
                      geometry_height := 250, fullscreen := True\<rparr>\<rparr>
              else (initial_state e)\<lparr>win := (win (initial_state e))\<lparr>geometry_width := 250,
                      geometry_height := 250\<rparr>\<rparr>)
             \<lparr>next_id := Suc (Suc 0), trace := [Wl (Wl_display_connect (Suc 0))],
               disp := (disp (initial_state e))\<lparr>display := Some (Suc 0)\<rparr>\<rparr>)"
    have evs: "\<forall>ev\<in>set b. positive_configure ev" "\<forall>b\<in>set bs. \<forall>ev\<in>set b. positive_configure ev"
      using assms Cons by simp_all
    have it: "result_all positive_geometry id (wl_display_iterate WL_DISPLAY_READABLE b ?st)"
      by (rule wl_display_iterate_geometry)
         (simp_all add: positive_geometry_def emits_def initial_state_def evs)
    show ?thesis
    proof (cases "wl_display_iterate WL_DISPLAY_READABLE b ?st")
      case (Inl a)
      then show ?thesis using it unfolding Cons startup_unfold[OF True]
        by (cases a) (simp add: bind_r_Inl result_all_def)
    next
      case (Inr st1)
      then have "positive_geometry st1" using it by (simp add: result_all_def)
      then show ?thesis unfolding Cons startup_unfold[OF True] Inr
        by (simp add: bind_r_Inr startup_tail_geometry evs split del: if_split)
    qed
  qed
qed

lemma startup_suffix:
  assumes "startup argv inbox e = Inr (bs', st')"
  shows "\<exists>k. bs' = drop k inbox"
proof (cases "connect_ok e")
  case False
  then show ?thesis using startup_stops_early(1)[of e argv inbox] assms by auto
next
  case True
  show ?thesis
  proof (cases inbox)
    case Nil
    then show ?thesis using startup_stops_early(2)[OF True, of argv] assms by auto
  next
    case (Cons b bs)
    obtain st1 a where "bind_r (init_egl a st1) (\<lambda>st.
         bind_r (create_surface bs st) (\<lambda>(inbox, st).
         bind_r (init_gl st) (\<lambda>st.
         bind_r (redraw None 0 (emit Sigaction_SIGINT (st\<lparr>sigint_handler := True\<rparr>)))
           (\<lambda>st. Inr (inbox, st))))) = Inr (bs', st')"
      using assms unfolding Cons startup_unfold[OF True]
      by (auto simp: bind_r_def split: sum.splits)
    then obtain k where "bs' = drop k bs" using startup_tail_suffix by blast
    then have "bs' = drop (Suc k) inbox" by (simp add: Cons)
    then show ?thesis by blast
  qed
qed

lemma main_geometry:
  assumes "\<forall>b\<in>set inbox. \<forall>ev\<in>set b. positive_configure ev"
  shows "positive_geometry (final_state (main argv inbox e))"
proof (cases "startup argv inbox e")
  case (Inl a)
  then show ?thesis using startup_geometry[OF assms, of argv e]
    by (cases a) (simp add: main_def bind_r_Inl result_all_def final_state_def)
next
  case (Inr p)
  obtain bs st where p: "p = (bs, st)" by (cases p)
  have pos: "positive_geometry st" using startup_geometry[OF assms, of argv e] Inr p
    by (simp add: result_all_def)
  obtain k where "bs = drop k inbox" using startup_suffix Inr p by blast
  then have "set bs \<subseteq> set inbox" by (simp add: set_drop_subset)
  then have evs: "\<forall>b\<in>set bs. \<forall>ev\<in>set b. positive_configure ev" using assms by blast
  have ml: "result_all positive_geometry id (main_loop bs st)"
    using pos evs by (rule main_loop_geometry)
  show ?thesis
  proof (cases "main_loop bs st")
    case (Inl a)
    then show ?thesis using ml Inr p
      by (cases a) (simp add: main_def bind_r_Inl bind_r_Inr result_all_def final_state_def)
  next
    case st': (Inr st')
    then have "positive_geometry st'" using ml by (simp add: result_all_def)
    then have "result_all positive_geometry id (teardown st')" by (rule teardown_geometry)
    then show ?thesis using Inr p st'
      by (cases "teardown st'") (auto simp: main_def bind_r_Inr result_all_def final_state_def)
  qed
qed

lemma main_windowed:
  "main [''simple-egl''] (announce # rest) all_ok = bind_r (main_loop rest started) teardown"
  by (simp add: main_def startup_started bind_r_Inr)

text \<open>
  C8, as the code has it. A configure overwrites the stored geometry with the width and
  height the server sent and sets \<open>configured\<close>, and a configure for the window's shell
  surface reaches the handler. The geometry is not checked: it is positive at the end of
  every run, returned or stopped, in which every configure that arrived carried a positive
  width and height (from the start it is 250 by 250).
\<close>

theorem geometry_follows_configure:
  "handle_configure ss edges width height st =
      st\<lparr>win := (win st)\<lparr>geometry_width := width, geometry_height := height,
                           configured := True\<rparr>\<rparr>
   \<and> (shell_surface (win st) = Some ss \<longrightarrow>
        dispatch (Configure ss edges width height) st =
          Inr (handle_configure ss edges width height st))
   \<and> ((\<forall>b\<in>set inbox. \<forall>ev\<in>set b. positive_configure ev) \<longrightarrow>
        positive_geometry (final_state (main argv inbox e)))"
  using main_geometry[of inbox argv e] by (simp add: handle_configure_def)

theorem geometry_follows_configure_witness:
  "shell_surface (win started) = Some 8
   \<and> dispatch (Configure 8 0 300 200) started = Inr (handle_configure 8 0 300 200 started)
   \<and> geometry_width (win (handle_configure 8 0 300 200 started)) = 300
   \<and> list_all (list_all positive_configure) scenario
   \<and> positive_geometry (final_state (main [''simple-egl''] scenario all_ok))"
proof -
  have evs: "\<forall>b\<in>set scenario. \<forall>ev\<in>set b. positive_configure ev"
    by (simp add: scenario_def announce_def)
  show ?thesis
    using geometry_follows_configure[of 8 0 300 200 started scenario "[''simple-egl'']" all_ok] evs
    by (simp add: started_fields list_all_iff)
qed

text \<open>
  C8 as stated fails: the server announces the globals and then sends a configure of
  0 by 0 for the shell surface; the stored geometry is then 0 by 0.
\<close>

theorem geometry_not_positive_counterexample:
  "geometry_width (win (final_state (main [''simple-egl''] [announce, [Configure 8 0 0 0]] all_ok))) = 0
   \<and> geometry_height (win (final_state (main [''simple-egl''] [announce, [Configure 8 0 0 0]] all_ok))) = 0
   \<and> \<not> positive_geometry (final_state (main [''simple-egl''] [announce, [Configure 8 0 0 0]] all_ok))"
  by (simp add: main_windowed started_fields wl_display_iterate_def emit_def handle_configure_def
      blocked_def bind_r_def final_state_def positive_geometry_def)

subsection \<open>Waiting for the configure\<close>

lemma wait_configured_configured:
  "wait_configured bs st = Inr (bs', st') \<Longrightarrow> configured (win st')"
proof (induction bs arbitrary: st)
  case Nil
  then show ?case by (simp add: blocked_def split: if_splits)
next
  case (Cons b bs)
  show ?case
  proof (cases "configured (win st)")
    case True
    then show ?thesis using Cons.prems by simp
  next
    case False
    then obtain st1 where "wait_configured bs st1 = Inr (bs', st')"
      using Cons.prems by (auto split: sum.splits)
    then show ?thesis by (rule Cons.IH)
  qed
qed

lemma redraw_native:
  "native_windows (trace st) = N \<Longrightarrow>
   result_all (\<lambda>s. native_windows (trace s) = N) id (redraw cb t st)"
  by (cases "surface (win st)"; cases cb)
     (simp_all add: redraw_unfold result_all_def emits_def emit_def)

lemma dispatch_native:
  "native_windows (trace st) = N \<Longrightarrow>
   result_all (\<lambda>s. native_windows (trace s) = N) id (dispatch ev st)"
proof (cases ev)
  case (Frame_done c t)
  assume "native_windows (trace st) = N"
  then show ?thesis using Frame_done redraw_native[of st N "Some c" t]
    by (simp add: result_all_def)
qed (auto simp: result_all_def display_handle_global_def create_def
      emit_def event_mask_update_def handle_ping_def handle_configure_def handle_popup_done_def
      input_handle_pointer_enter_def signal_int_def)

lemma dispatch_all_native:
  "native_windows (trace st) = N \<Longrightarrow>
   result_all (\<lambda>s. native_windows (trace s) = N) id (dispatch_all evs st)"
proof (induction evs arbitrary: st)
  case Nil
  then show ?case by (simp add: result_all_def)
next
  case (Cons ev evs)
  have d: "result_all (\<lambda>s. native_windows (trace s) = N) id (dispatch ev st)"
    using Cons.prems by (rule dispatch_native)
  show ?case
  proof (cases "dispatch ev st")
    case (Inl a)
    then show ?thesis using d by (simp add: result_all_def)
  next
    case (Inr st')
    then have "native_windows (trace st') = N" using d by (simp add: result_all_def)
    then show ?thesis using Cons.IH[of st'] Inr by simp
  qed
qed

lemma wl_display_iterate_native:
  "native_windows (trace st) = N \<Longrightarrow>
   result_all (\<lambda>s. native_windows (trace s) = N) id (wl_display_iterate m b st)"
  unfolding wl_display_iterate_def
  by (rule dispatch_all_native) (simp add: emit_def)

lemma wait_configured_native:
  "native_windows (trace st) = N \<Longrightarrow>
   result_all (\<lambda>s. native_windows (trace s) = N) snd (wait_configured bs st)"
proof (induction bs arbitrary: st)
  case Nil
  then show ?case by (simp add: blocked_def result_all_def emit_def)
next
  case (Cons b bs)
  have d: "result_all (\<lambda>s. native_windows (trace s) = N) id
      (wl_display_iterate (mask_d (disp st)) b st)"
    using Cons.prems by (rule wl_display_iterate_native)
  show ?case
  proof (cases "wl_display_iterate (mask_d (disp st)) b st")
    case (Inl a)
    then show ?thesis using d Cons.prems by (simp add: result_all_def)
  next
    case (Inr st')
    then have "native_windows (trace st') = N" using d by (simp add: result_all_def)
    then show ?thesis using Cons.IH[of st'] Cons.prems Inr by (simp add: result_all_def)
  qed
qed

text \<open>An event that is no configure for the shell surface leaves \<open>configured\<close> false.\<close>

lemma dispatch_unconfigured:
  assumes "\<not> configured (win st)" and "shell_surface (win st) = Some ss"
    and "\<not> configure_for ss ev" and "dispatch ev st = Inr st'"
  shows "\<not> configured (win st') \<and> shell_surface (win st') = Some ss"
proof (cases ev)
  case (Frame_done c t)
  then show ?thesis using assms
    by (cases "surface (win st)") (auto simp: redraw_unfold split: if_splits)
qed (use assms in \<open>auto simp: display_handle_global_def create_def
      emit_def event_mask_update_def handle_ping_def handle_configure_def handle_popup_done_def
      input_handle_pointer_enter_def signal_int_def split: if_splits\<close>)

lemma dispatch_all_unconfigured:
  assumes "\<not> configured (win st)" and "shell_surface (win st) = Some ss"
    and "\<forall>ev\<in>set evs. \<not> configure_for ss ev" and "dispatch_all evs st = Inr st'"
  shows "\<not> configured (win st') \<and> shell_surface (win st') = Some ss"
  using assms
proof (induction evs arbitrary: st)
  case Nil
  then show ?case by simp
next
  case (Cons ev evs)
  then obtain st1 where d: "dispatch ev st = Inr st1" and r: "dispatch_all evs st1 = Inr st'"
    by (auto split: sum.splits)
  have "\<not> configured (win st1) \<and> shell_surface (win st1) = Some ss"
    using dispatch_unconfigured[OF Cons.prems(1,2) _ d] Cons.prems(3) by simp
  then show ?case using Cons.IH[of st1] Cons.prems(3) r by simp
qed

lemma wait_configured_blocks:
  assumes "\<not> configured (win st)" and "shell_surface (win st) = Some ss"
    and "\<forall>b\<in>set bs. \<forall>ev\<in>set b. \<not> configure_for ss ev"
  shows "\<exists>err st'. wait_configured bs st = Inl (err, st')"
  using assms
proof (induction bs arbitrary: st)
  case Nil
  then show ?case by (simp add: blocked_def)
next
  case (Cons b bs)
  show ?case
  proof (cases "wl_display_iterate (mask_d (disp st)) b st")
    case (Inl a)
    then show ?thesis using Cons.prems(1) by (cases a) simp
  next
    case (Inr st1)
    then have "dispatch_all b (emit (Wl (Wl_display_iterate (mask_d (disp st)))) st) = Inr st1"
      by (simp add: wl_display_iterate_def)
    then have "\<not> configured (win st1) \<and> shell_surface (win st1) = Some ss"
      using dispatch_all_unconfigured[of "emit (Wl (Wl_display_iterate (mask_d (disp st)))) st" ss b st1]
        Cons.prems by (simp add: emit_def)
    then show ?thesis using Cons.IH[of st1] Cons.prems(1,3) Inr by simp
  qed
qed

subsection \<open>The wait ends with the configure\<close>

lemma iterations_append [simp]: "iterations (xs @ ys) = iterations xs + iterations ys"
  by (induction xs rule: iterations.induct) simp_all

lemma last_configure_None:
  "(last_configure ss evs = None) = (\<forall>ev\<in>set evs. \<not> configure_for ss ev)"
  by (induction ss evs rule: last_configure.induct) (auto split: option.splits)

text \<open>With a surface, any event but SIGINT is handled and the dispatch goes on.\<close>

lemma dispatch_proceeds:
  assumes "surface (win st) = Some s" and "shell_surface (win st) = Some ss" and "ev \<noteq> SIGINT"
  shows "\<exists>st'. dispatch ev st = Inr st'
     \<and> surface (win st') = Some s \<and> shell_surface (win st') = Some ss
     \<and> iterations (trace st') = iterations (trace st)
     \<and> native_windows (trace st') = native_windows (trace st)
     \<and> (configured (win st) \<longrightarrow> configured (win st'))
     \<and> (geometry_width (win st'), geometry_height (win st')) =
         (case last_configure ss [ev] of
            None \<Rightarrow> (geometry_width (win st), geometry_height (win st))
          | Some wh \<Rightarrow> wh)
     \<and> (last_configure ss [ev] \<noteq> None \<longrightarrow> configured (win st'))"
proof (cases ev)
  case (Frame_done c t)
  then show ?thesis using assms by (simp add: redraw_unfold)
qed (use assms in \<open>auto simp: display_handle_global_def create_def
      emit_def event_mask_update_def handle_ping_def handle_configure_def handle_popup_done_def
      input_handle_pointer_enter_def\<close>)

lemma last_configure_Cons:
  "last_configure ss (ev # evs) =
     (case last_configure ss evs of Some wh \<Rightarrow> Some wh | None \<Rightarrow> last_configure ss [ev])"
  by (cases ev) (auto split: option.splits)

lemma dispatch_all_proceeds:
  assumes "surface (win st) = Some s" and "shell_surface (win st) = Some ss"
    and "SIGINT \<notin> set evs"
  shows "\<exists>st'. dispatch_all evs st = Inr st'
     \<and> surface (win st') = Some s \<and> shell_surface (win st') = Some ss
     \<and> iterations (trace st') = iterations (trace st)
     \<and> native_windows (trace st') = native_windows (trace st)
     \<and> (configured (win st) \<longrightarrow> configured (win st'))
     \<and> (geometry_width (win st'), geometry_height (win st')) =
         (case last_configure ss evs of
            None \<Rightarrow> (geometry_width (win st), geometry_height (win st))
          | Some wh \<Rightarrow> wh)
     \<and> (last_configure ss evs \<noteq> None \<longrightarrow> configured (win st'))"
  using assms
proof (induction evs arbitrary: st)
  case Nil
  then show ?case by simp
next
  case (Cons ev evs)
  have "ev \<noteq> SIGINT" using Cons.prems(3) by auto
  then obtain st1 where d: "dispatch ev st = Inr st1"
    and k: "surface (win st1) = Some s" "shell_surface (win st1) = Some ss"
    and i: "iterations (trace st1) = iterations (trace st)"
      "native_windows (trace st1) = native_windows (trace st)"
    and c: "configured (win st) \<longrightarrow> configured (win st1)"
    and g: "(geometry_width (win st1), geometry_height (win st1)) =
         (case last_configure ss [ev] of
            None \<Rightarrow> (geometry_width (win st), geometry_height (win st))
          | Some wh \<Rightarrow> wh)"
    and c1: "last_configure ss [ev] \<noteq> None \<longrightarrow> configured (win st1)"
    using dispatch_proceeds[OF Cons.prems(1,2)] by blast
  have "SIGINT \<notin> set evs" using Cons.prems(3) by auto
  then obtain st' where r: "dispatch_all evs st1 = Inr st'"
    and k': "surface (win st') = Some s" "shell_surface (win st') = Some ss"
    and i': "iterations (trace st') = iterations (trace st1)"
      "native_windows (trace st') = native_windows (trace st1)"
    and c': "configured (win st1) \<longrightarrow> configured (win st')"
    and g': "(geometry_width (win st'), geometry_height (win st')) =
         (case last_configure ss evs of
            None \<Rightarrow> (geometry_width (win st1), geometry_height (win st1))
          | Some wh \<Rightarrow> wh)"
    and c1': "last_configure ss evs \<noteq> None \<longrightarrow> configured (win st')"
    using Cons.IH[OF k] by blast
  have "dispatch_all (ev # evs) st = Inr st'" using d r by simp
  moreover have "(geometry_width (win st'), geometry_height (win st')) =
         (case last_configure ss (ev # evs) of
            None \<Rightarrow> (geometry_width (win st), geometry_height (win st))
          | Some wh \<Rightarrow> wh)"
    using g g' by (simp add: last_configure_Cons[of ss ev evs] split: option.splits)
  moreover have "last_configure ss (ev # evs) \<noteq> None \<longrightarrow> configured (win st')"
    using c1 c1' c' by (simp add: last_configure_Cons[of ss ev evs] split: option.splits)
  ultimately show ?case using k' i i' c c' by simp
qed

lemma wl_display_iterate_proceeds:
  assumes "surface (win st) = Some s" and "shell_surface (win st) = Some ss"
    and "SIGINT \<notin> set evs"
  shows "\<exists>st'. wl_display_iterate m evs st = Inr st'
     \<and> surface (win st') = Some s \<and> shell_surface (win st') = Some ss
     \<and> iterations (trace st') = Suc (iterations (trace st))
     \<and> native_windows (trace st') = native_windows (trace st)
     \<and> (geometry_width (win st'), geometry_height (win st')) =
         (case last_configure ss evs of
            None \<Rightarrow> (geometry_width (win st), geometry_height (win st))
          | Some wh \<Rightarrow> wh)
     \<and> (last_configure ss evs \<noteq> None \<longrightarrow> configured (win st'))"
proof -
  have "surface (win (emit (Wl (Wl_display_iterate m)) st)) = Some s"
    "shell_surface (win (emit (Wl (Wl_display_iterate m)) st)) = Some ss"
    using assms(1,2) by (simp_all add: emit_def)
  then obtain st' where "dispatch_all evs (emit (Wl (Wl_display_iterate m)) st) = Inr st'"
    "surface (win st') = Some s \<and> shell_surface (win st') = Some ss"
    "iterations (trace st') = iterations (trace (emit (Wl (Wl_display_iterate m)) st))"
    "native_windows (trace st') = native_windows (trace (emit (Wl (Wl_display_iterate m)) st))"
    "(geometry_width (win st'), geometry_height (win st')) =
         (case last_configure ss evs of
            None \<Rightarrow> (geometry_width (win (emit (Wl (Wl_display_iterate m)) st)),
                     geometry_height (win (emit (Wl (Wl_display_iterate m)) st)))
          | Some wh \<Rightarrow> wh)"
    "last_configure ss evs \<noteq> None \<longrightarrow> configured (win st')"
    using dispatch_all_proceeds[OF _ _ assms(3)] by blast
  then show ?thesis
    by (cases "last_configure ss evs") (simp_all add: wl_display_iterate_def emit_def)
qed

lemma wait_configured_done: "configured (win st) \<Longrightarrow> wait_configured bs st = Inr (bs, st)"
  by (cases bs) simp_all

lemma wait_configured_proceeds:
  assumes "\<not> configured (win st)"
    and "surface (win st) = Some s" and "shell_surface (win st) = Some ss"
    and "\<forall>b\<in>set pre. SIGINT \<notin> set b \<and> (\<forall>ev\<in>set b. \<not> configure_for ss ev)"
    and "SIGINT \<notin> set b" and "last_configure ss b = Some (w, h)"
  shows "\<exists>st'. wait_configured (pre @ b # post) st = Inr (post, st')
     \<and> configured (win st')
     \<and> geometry_width (win st') = w \<and> geometry_height (win st') = h
     \<and> iterations (trace st') = iterations (trace st) + Suc (length pre)
     \<and> native_windows (trace st') = native_windows (trace st)"
  using assms(1-4)
proof (induction pre arbitrary: st)
  case Nil
  obtain st1 where "wl_display_iterate (mask_d (disp st)) b st = Inr st1"
    "iterations (trace st1) = Suc (iterations (trace st))"
    "native_windows (trace st1) = native_windows (trace st)"
    "(geometry_width (win st1), geometry_height (win st1)) =
         (case last_configure ss b of
            None \<Rightarrow> (geometry_width (win st), geometry_height (win st))
          | Some wh \<Rightarrow> wh)"
    "last_configure ss b \<noteq> None \<longrightarrow> configured (win st1)"
    using wl_display_iterate_proceeds[OF Nil.prems(2,3) assms(5)] by blast
  then show ?case using Nil.prems(1) assms(6) by (simp add: wait_configured_done)
next
  case (Cons p pre)
  have p: "SIGINT \<notin> set p" "\<forall>ev\<in>set p. \<not> configure_for ss ev"
    using Cons.prems(4) by simp_all
  obtain st1 where it: "wl_display_iterate (mask_d (disp st)) p st = Inr st1"
    and k: "surface (win st1) = Some s" "shell_surface (win st1) = Some ss"
    and i: "iterations (trace st1) = Suc (iterations (trace st))"
      "native_windows (trace st1) = native_windows (trace st)"
    using wl_display_iterate_proceeds[OF Cons.prems(2,3) p(1)] by blast
  have "dispatch_all p (emit (Wl (Wl_display_iterate (mask_d (disp st)))) st) = Inr st1"
    using it by (simp add: wl_display_iterate_def)
  then have u: "\<not> configured (win st1)"
    using dispatch_all_unconfigured[of "emit (Wl (Wl_display_iterate (mask_d (disp st)))) st" ss p st1]
      Cons.prems(1,3) p(2) by (simp add: emit_def)
  have rest: "\<forall>b\<in>set pre. SIGINT \<notin> set b \<and> (\<forall>ev\<in>set b. \<not> configure_for ss ev)"
    using Cons.prems(4) by simp
  obtain st' where "wait_configured (pre @ b # post) st1 = Inr (post, st')"
    "configured (win st')" "geometry_width (win st') = w \<and> geometry_height (win st') = h"
    "iterations (trace st') = iterations (trace st1) + Suc (length pre)"
    "native_windows (trace st') = native_windows (trace st1)"
    using Cons.IH[OF u k rest] by blast
  then show ?case using it i Cons.prems(1) by simp
qed

lemma create_surface_fullscreen:
  assumes "fullscreen (win st)"
  shows "case create_surface bs st of
           Inr (bs', st') \<Rightarrow>
             configured (win st')
             \<and> native_windows (trace st') =
                 native_windows (trace st) @ [(geometry_width (win st'), geometry_height (win st'))]
         | Inl (err, st') \<Rightarrow>
             native_windows (trace st') \<noteq> native_windows (trace st) \<longrightarrow> configured (win st')"
proof (cases "compositor (disp st)")
  case None
  then show ?thesis by (simp add: create_surface_no_object)
next
  case (Some cpr)
  show ?thesis
  proof (cases "shell (disp st)")
    case None
    then show ?thesis using Some by (simp add: create_surface_no_object)
  next
    case sh: (Some sh)
    let ?st = "st\<lparr>next_id := Suc (Suc (next_id st)),
                        win := (win st)\<lparr>surface := Some (next_id st),
                                        shell_surface := Some (Suc (next_id st)),
                                        configured := False\<rparr>,
                        trace := trace st @
                          [Wl (Wl_compositor_create_surface cpr (next_id st)),
                           Wl (Wl_shell_get_shell_surface sh (Some (next_id st)) (Suc (next_id st))),
                           Wl (Wl_shell_surface_add_listener (Suc (next_id st))),
                           Wl (Wl_shell_surface_set_fullscreen (Suc (next_id st)))]\<rparr>"
    have n: "result_all (\<lambda>s. native_windows (trace s) = native_windows (trace st)) snd
        (wait_configured bs ?st)"
      by (rule wait_configured_native) simp
    show ?thesis
    proof (cases "wait_configured bs ?st")
      case (Inl a)
      then show ?thesis using n assms unfolding create_surface_unfold[OF Some sh]
        by (cases a) (simp add: bind_r_Inl result_all_def)
    next
      case (Inr p)
      obtain bs' st1 where p: "p = (bs', st1)" by (cases p)
      have "configured (win st1)" using Inr p wait_configured_configured by blast
      moreover have "native_windows (trace st1) = native_windows (trace st)"
        using n Inr p by (simp add: result_all_def)
      ultimately show ?thesis using assms Inr p unfolding create_surface_unfold[OF Some sh]
        by (simp add: bind_r_Inr)
    qed
  qed
qed

lemma create_surface_blocks:
  assumes "fullscreen (win st)"
    and "\<forall>b\<in>set bs. \<forall>ev\<in>set b. \<not> configure_for (Suc (next_id st)) ev"
  shows "\<exists>err st'. create_surface bs st = Inl (err, st')
           \<and> native_windows (trace st') = native_windows (trace st)"
proof (cases "compositor (disp st)")
  case None
  then show ?thesis by (simp add: create_surface_no_object)
next
  case (Some cpr)
  show ?thesis
  proof (cases "shell (disp st)")
    case None
    then show ?thesis using Some by (simp add: create_surface_no_object)
  next
    case sh: (Some sh)
    let ?st = "st\<lparr>next_id := Suc (Suc (next_id st)),
                        win := (win st)\<lparr>surface := Some (next_id st),
                                        shell_surface := Some (Suc (next_id st)),
                                        configured := False\<rparr>,
                        trace := trace st @
                          [Wl (Wl_compositor_create_surface cpr (next_id st)),
                           Wl (Wl_shell_get_shell_surface sh (Some (next_id st)) (Suc (next_id st))),
                           Wl (Wl_shell_surface_add_listener (Suc (next_id st))),
                           Wl (Wl_shell_surface_set_fullscreen (Suc (next_id st)))]\<rparr>"
    have n: "result_all (\<lambda>s. native_windows (trace s) = native_windows (trace st)) snd
        (wait_configured bs ?st)"
      by (rule wait_configured_native) simp
    have "\<exists>err st'. wait_configured bs ?st = Inl (err, st')"
      by (rule wait_configured_blocks[where ss = "Suc (next_id st)"]) (simp_all add: assms(2))
    then obtain err st' where w: "wait_configured bs ?st = Inl (err, st')" by blast
    then have "native_windows (trace st') = native_windows (trace st)"
      using n by (simp add: result_all_def)
    then show ?thesis using assms(1) w unfolding create_surface_unfold[OF Some sh]
      by (simp add: bind_r_Inl)
  qed
qed

text \<open>The environment stays the same.\<close>

lemma dispatch_env: "dispatch ev st = Inr st' \<Longrightarrow> env st' = env st"
proof (cases ev)
  case (Frame_done c t)
  assume "dispatch ev st = Inr st'"
  then show ?thesis using Frame_done
    by (cases "surface (win st)") (auto simp: redraw_unfold split: if_splits)
qed (auto simp: display_handle_global_def create_def
      emit_def event_mask_update_def handle_ping_def handle_configure_def handle_popup_done_def
      input_handle_pointer_enter_def signal_int_def split: if_splits)

lemma dispatch_all_env: "dispatch_all evs st = Inr st' \<Longrightarrow> env st' = env st"
proof (induction evs arbitrary: st)
  case Nil
  then show ?case by simp
next
  case (Cons ev evs)
  then obtain st1 where "dispatch ev st = Inr st1" "dispatch_all evs st1 = Inr st'"
    by (auto split: sum.splits)
  then show ?case using Cons.IH[of st1] dispatch_env[of ev st st1] by simp
qed

lemma wait_configured_env: "wait_configured bs st = Inr (bs', st') \<Longrightarrow> env st' = env st"
proof (induction bs arbitrary: st)
  case Nil
  then show ?case by (simp add: blocked_def split: if_splits)
next
  case (Cons b bs)
  show ?case
  proof (cases "configured (win st)")
    case True
    then show ?thesis using Cons.prems by simp
  next
    case False
    then obtain st1 where a: "wl_display_iterate (mask_d (disp st)) b st = Inr st1"
      and r: "wait_configured bs st1 = Inr (bs', st')"
      using Cons.prems by (auto split: sum.splits)
    have "env st1 = env st"
      using a dispatch_all_env[of b "emit (Wl (Wl_display_iterate (mask_d (disp st)))) st" st1]
      by (simp add: wl_display_iterate_def emit_def)
    then show ?thesis using Cons.IH[OF r] by simp
  qed
qed

lemma create_surface_proceeds:
  assumes "fullscreen (win st)"
    and "compositor (disp st) = Some cpr" and "shell (disp st) = Some sh"
    and "egl_make_current_ok (env st)"
    and "\<forall>b\<in>set pre. SIGINT \<notin> set b \<and> (\<forall>ev\<in>set b. \<not> configure_for (Suc (next_id st)) ev)"
    and "SIGINT \<notin> set b" and "last_configure (Suc (next_id st)) b = Some (w, h)"
  shows "\<exists>st'. create_surface (pre @ b # post) st = Inr (post, st')
     \<and> configured (win st')
     \<and> geometry_width (win st') = w \<and> geometry_height (win st') = h
     \<and> iterations (trace st') = iterations (trace st) + Suc (length pre)
     \<and> native_windows (trace st') = native_windows (trace st) @ [(w, h)]"
proof -
  let ?st = "st\<lparr>next_id := Suc (Suc (next_id st)),
                        win := (win st)\<lparr>surface := Some (next_id st),
                                        shell_surface := Some (Suc (next_id st)),
                                        configured := False\<rparr>,
                        trace := trace st @
                          [Wl (Wl_compositor_create_surface cpr (next_id st)),
                           Wl (Wl_shell_get_shell_surface sh (Some (next_id st)) (Suc (next_id st))),
                           Wl (Wl_shell_surface_add_listener (Suc (next_id st))),
                           Wl (Wl_shell_surface_set_fullscreen (Suc (next_id st)))]\<rparr>"
  have "\<exists>st1. wait_configured (pre @ b # post) ?st = Inr (post, st1)
     \<and> configured (win st1)
     \<and> geometry_width (win st1) = w \<and> geometry_height (win st1) = h
     \<and> iterations (trace st1) = iterations (trace ?st) + Suc (length pre)
     \<and> native_windows (trace st1) = native_windows (trace ?st)"
    by (rule wait_configured_proceeds[where s = "next_id st" and ss = "Suc (next_id st)"])
       (simp_all add: assms(5,6,7))
  then obtain st1 where w: "wait_configured (pre @ b # post) ?st = Inr (post, st1)"
    and c: "configured (win st1)"
    and g: "geometry_width (win st1) = w" "geometry_height (win st1) = h"
    and i: "iterations (trace st1) = iterations (trace ?st) + Suc (length pre)"
    and n: "native_windows (trace st1) = native_windows (trace ?st)"
    by blast
  have e: "egl_make_current_ok (env st1)"
    using wait_configured_env[OF w] assms(4) by simp
  show ?thesis
    unfolding create_surface_unfold[OF assms(2,3)]
    using assms(1) w c g i n e by (simp add: bind_r_Inr)
qed

text \<open>
  C4. In fullscreen mode: when \<open>create_surface\<close> returns, \<open>configured\<close> is true and the one
  native window it created has the geometry stored then; however the call ends, returned
  or stopped, a native window has been created only if \<open>configured\<close> is true; and when no
  batch of events holds a configure for the new shell surface the call never returns and
  creates no native window. The wait goes on from batch to batch until the configure
  comes: with both proxies bound and the context made current, when some batches without
  a configure for the new shell surface are followed by a batch with one (and no SIGINT
  arrives, which would end the process), the call iterates the display once for each of
  these batches, returns with the batches after them unread and \<open>configured\<close> true, and
  has created the native window at the size of the last configure of that batch. In
  windowed mode, with both proxies bound and the context
  made current, the call returns at once, having read no event and iterated the display
  not once, with the native window created at the geometry the caller had stored and
  \<open>configured\<close> as it was.
\<close>

theorem create_surface_waits_for_configure:
  "(fullscreen (win st) \<and> create_surface inbox st = Inr (inbox', st') \<longrightarrow>
      configured (win st')
      \<and> native_windows (trace st') =
          native_windows (trace st) @ [(geometry_width (win st'), geometry_height (win st'))])
   \<and> (fullscreen (win st)
        \<and> native_windows (trace (final_state_inbox (create_surface inbox st)))
            \<noteq> native_windows (trace st) \<longrightarrow>
      configured (win (final_state_inbox (create_surface inbox st))))
   \<and> (fullscreen (win st)
        \<and> (\<forall>b\<in>set inbox. \<forall>ev\<in>set b. \<not> configure_for (Suc (next_id st)) ev) \<longrightarrow>
      (\<exists>err st1. create_surface inbox st = Inl (err, st1))
      \<and> native_windows (trace (final_state_inbox (create_surface inbox st)))
          = native_windows (trace st))
   \<and> (fullscreen (win st) \<and> compositor (disp st) = Some cpr \<and> shell (disp st) = Some sh
        \<and> egl_make_current_ok (env st)
        \<and> (\<forall>b\<in>set pre. SIGINT \<notin> set b
              \<and> (\<forall>ev\<in>set b. \<not> configure_for (Suc (next_id st)) ev))
        \<and> SIGINT \<notin> set batch \<and> last_configure (Suc (next_id st)) batch = Some (w, h) \<longrightarrow>
      (\<exists>st1. create_surface (pre @ batch # post) st = Inr (post, st1)
         \<and> configured (win st1)
         \<and> geometry_width (win st1) = w \<and> geometry_height (win st1) = h
         \<and> iterations (trace st1) = iterations (trace st) + Suc (length pre)
         \<and> native_windows (trace st1) = native_windows (trace st) @ [(w, h)]))
   \<and> (\<not> fullscreen (win st) \<and> compositor (disp st) = Some cpr \<and> shell (disp st) = Some sh
        \<and> egl_make_current_ok (env st) \<longrightarrow>
      create_surface inbox st =
        Inr (inbox,
             st\<lparr>next_id := Suc (Suc (Suc (Suc (next_id st)))),
                win := (win st)\<lparr>surface := Some (next_id st),
                                shell_surface := Some (Suc (next_id st)),
                                native := Some (Suc (Suc (next_id st))),
                                egl_surface := Some (Suc (Suc (Suc (next_id st))))\<rparr>,
                trace := trace st @
                  [Wl (Wl_compositor_create_surface cpr (next_id st)),
                   Wl (Wl_shell_get_shell_surface sh (Some (next_id st)) (Suc (next_id st))),
                   Wl (Wl_shell_surface_add_listener (Suc (next_id st))),
                   Wl (Wl_shell_surface_set_toplevel (Suc (next_id st))),
                   Wl (Wl_egl_window_create (next_id st) (geometry_width (win st))
                         (geometry_height (win st)) (Suc (Suc (next_id st)))),
                   Egl (EglCreateWindowSurface (Some (Suc (Suc (next_id st))))
                         (Suc (Suc (Suc (next_id st))))),
                   Egl (EglMakeCurrent (Some (Suc (Suc (Suc (next_id st))))) (egl_ctx (disp st)))]\<rparr>))"
proof -
  have a: "fullscreen (win st) \<and> create_surface inbox st = Inr (inbox', st') \<longrightarrow>
      configured (win st')
      \<and> native_windows (trace st') =
          native_windows (trace st) @ [(geometry_width (win st'), geometry_height (win st'))]"
    using create_surface_fullscreen[of st inbox] by auto
  have b: "fullscreen (win st)
        \<and> native_windows (trace (final_state_inbox (create_surface inbox st)))
            \<noteq> native_windows (trace st) \<longrightarrow>
      configured (win (final_state_inbox (create_surface inbox st)))"
    using create_surface_fullscreen[of st inbox]
    by (cases "create_surface inbox st") (auto simp: final_state_inbox_def)
  have c: "fullscreen (win st)
        \<and> (\<forall>b\<in>set inbox. \<forall>ev\<in>set b. \<not> configure_for (Suc (next_id st)) ev) \<longrightarrow>
      (\<exists>err st1. create_surface inbox st = Inl (err, st1))
      \<and> native_windows (trace (final_state_inbox (create_surface inbox st)))
          = native_windows (trace st)"
  proof (intro impI, elim conjE)
    assume f: "fullscreen (win st)"
      and e: "\<forall>b\<in>set inbox. \<forall>ev\<in>set b. \<not> configure_for (Suc (next_id st)) ev"
    obtain err st1 where r: "create_surface inbox st = Inl (err, st1)"
      "native_windows (trace st1) = native_windows (trace st)"
      using create_surface_blocks[OF f e] by blast
    then show "(\<exists>err st1. create_surface inbox st = Inl (err, st1))
      \<and> native_windows (trace (final_state_inbox (create_surface inbox st)))
          = native_windows (trace st)"
      by (simp add: final_state_inbox_def)
  qed
  have d: "\<not> fullscreen (win st) \<and> compositor (disp st) = Some cpr \<and> shell (disp st) = Some sh
        \<and> egl_make_current_ok (env st) \<longrightarrow>
      create_surface inbox st =
        Inr (inbox,
             st\<lparr>next_id := Suc (Suc (Suc (Suc (next_id st)))),
                win := (win st)\<lparr>surface := Some (next_id st),
                                shell_surface := Some (Suc (next_id st)),
                                native := Some (Suc (Suc (next_id st))),
                                egl_surface := Some (Suc (Suc (Suc (next_id st))))\<rparr>,
                trace := trace st @
                  [Wl (Wl_compositor_create_surface cpr (next_id st)),
                   Wl (Wl_shell_get_shell_surface sh (Some (next_id st)) (Suc (next_id st))),
                   Wl (Wl_shell_surface_add_listener (Suc (next_id st))),
                   Wl (Wl_shell_surface_set_toplevel (Suc (next_id st))),
                   Wl (Wl_egl_window_create (next_id st) (geometry_width (win st))
                         (geometry_height (win st)) (Suc (Suc (next_id st)))),
                   Egl (EglCreateWindowSurface (Some (Suc (Suc (next_id st))))
                         (Suc (Suc (Suc (next_id st))))),
                   Egl (EglMakeCurrent (Some (Suc (Suc (Suc (next_id st))))) (egl_ctx (disp st)))]\<rparr>)"
    by (auto simp: create_surface_unfold bind_r_Inr)
  have p: "fullscreen (win st) \<and> compositor (disp st) = Some cpr \<and> shell (disp st) = Some sh
        \<and> egl_make_current_ok (env st)
        \<and> (\<forall>b\<in>set pre. SIGINT \<notin> set b
              \<and> (\<forall>ev\<in>set b. \<not> configure_for (Suc (next_id st)) ev))
        \<and> SIGINT \<notin> set batch \<and> last_configure (Suc (next_id st)) batch = Some (w, h) \<longrightarrow>
      (\<exists>st1. create_surface (pre @ batch # post) st = Inr (post, st1)
         \<and> configured (win st1)
         \<and> geometry_width (win st1) = w \<and> geometry_height (win st1) = h
         \<and> iterations (trace st1) = iterations (trace st) + Suc (length pre)
         \<and> native_windows (trace st1) = native_windows (trace st) @ [(w, h)])"
    using create_surface_proceeds[of st cpr sh pre batch w h post] by blast
  show ?thesis using a b c p d by blast
qed

lemma create_surface_sample:
  "\<exists>st'. create_surface [[Configure 17 0 300 200]] (started\<lparr>win := (win started)\<lparr>fullscreen := True\<rparr>\<rparr>)
            = Inr ([], st')
     \<and> native_windows (trace st') = [(250, 250), (300, 200)]"
  by (simp add: started_eq create_surface_def wait_configured.simps on_object_def create_def
      bind_r_def Let_def emit_def assert_def wl_display_iterate_def handle_configure_def all_ok_def)

theorem create_surface_waits_for_configure_witness:
  "fullscreen (win (started\<lparr>win := (win started)\<lparr>fullscreen := True\<rparr>\<rparr>))
   \<and> (\<exists>st'. create_surface [[Configure 17 0 300 200]]
               (started\<lparr>win := (win started)\<lparr>fullscreen := True\<rparr>\<rparr>) = Inr ([], st')
          \<and> configured (win st')
          \<and> native_windows (trace st') = [(250, 250), (300, 200)]
          \<and> geometry_width (win st') = 300 \<and> geometry_height (win st') = 200)
   \<and> native_windows (trace (final_state_inbox (create_surface [[Configure 17 0 300 200]]
         (started\<lparr>win := (win started)\<lparr>fullscreen := True\<rparr>\<rparr>))))
       \<noteq> native_windows (trace (started\<lparr>win := (win started)\<lparr>fullscreen := True\<rparr>\<rparr>))
   \<and> configured (win (final_state_inbox (create_surface [[Configure 17 0 300 200]]
         (started\<lparr>win := (win started)\<lparr>fullscreen := True\<rparr>\<rparr>))))
   \<and> list_all (list_all (\<lambda>ev. \<not> configure_for
         (Suc (next_id (started\<lparr>win := (win started)\<lparr>fullscreen := True\<rparr>\<rparr>))) ev)) [[Ping 17 5]]
   \<and> (\<exists>err st1. create_surface [[Ping 17 5]]
          (started\<lparr>win := (win started)\<lparr>fullscreen := True\<rparr>\<rparr>) = Inl (err, st1))
   \<and> list_all (\<lambda>b. SIGINT \<notin> set b) [[Ping 17 5], [Configure 17 0 300 200]]
   \<and> last_configure (Suc (next_id (started\<lparr>win := (win started)\<lparr>fullscreen := True\<rparr>\<rparr>)))
         [Configure 17 0 300 200] = Some (300, 200)
   \<and> (\<exists>st1. create_surface [[Ping 17 5], [Configure 17 0 300 200], [Ping 17 6]]
               (started\<lparr>win := (win started)\<lparr>fullscreen := True\<rparr>\<rparr>) = Inr ([[Ping 17 6]], st1)
          \<and> configured (win st1)
          \<and> geometry_width (win st1) = 300 \<and> geometry_height (win st1) = 200
          \<and> iterations (trace st1) = iterations (trace started) + 2
          \<and> native_windows (trace st1) = [(250, 250), (300, 200)])
   \<and> \<not> fullscreen (win started) \<and> compositor (disp started) = Some 2
   \<and> shell (disp started) = Some 3 \<and> egl_make_current_ok (env started)
   \<and> (\<exists>st'. create_surface [[Configure 17 0 300 200]] started
               = Inr ([[Configure 17 0 300 200]], st')
          \<and> native_windows (trace st') = [(250, 250), (250, 250)]
          \<and> \<not> configured (win st'))"
proof -
  let ?F = "started\<lparr>win := (win started)\<lparr>fullscreen := True\<rparr>\<rparr>"
  obtain st' where r: "create_surface [[Configure 17 0 300 200]] ?F = Inr ([], st')"
    and n: "native_windows (trace st') = [(250, 250), (300, 200)]"
    using create_surface_sample by blast
  have nw: "native_windows (trace started) = [(250, 250)]" by (simp add: started_eq)
  have env: "egl_make_current_ok (env started)" by (simp add: started_eq all_ok_def)
  have cf: "\<not> configured (win started)" by (simp add: started_eq)
  have f: "fullscreen (win ?F)" by simp
  note t1 = create_surface_waits_for_configure[where st = "?F"
      and inbox = "[[Configure 17 0 300 200]]" and inbox' = "[]" and st' = st']
  note t2 = create_surface_waits_for_configure[where st = "?F" and inbox = "[[Ping 17 5]]"]
  note t3 = create_surface_waits_for_configure[where st = started
      and inbox = "[[Configure 17 0 300 200]]" and cpr = 2 and sh = 3]
  note t4 = create_surface_waits_for_configure[where st = "?F" and cpr = 2 and sh = 3
      and pre = "[[Ping 17 5]]" and batch = "[Configure 17 0 300 200]"
      and post = "[[Ping 17 6]]" and w = 300 and h = 200]
  have p: "\<exists>st1. create_surface [[Ping 17 5], [Configure 17 0 300 200], [Ping 17 6]] ?F
               = Inr ([[Ping 17 6]], st1)
          \<and> configured (win st1)
          \<and> geometry_width (win st1) = 300 \<and> geometry_height (win st1) = 200
          \<and> iterations (trace st1) = iterations (trace started) + 2
          \<and> native_windows (trace st1) = [(250, 250), (300, 200)]"
    using t4 env nw by (simp add: started_fields)
  have a: "configured (win st') \<and> geometry_width (win st') = 300 \<and> geometry_height (win st') = 200"
    using t1 r n f nw by simp
  have b: "\<exists>err st1. create_surface [[Ping 17 5]] ?F = Inl (err, st1)"
    using t2 f by (simp add: started_fields)
  have c: "\<exists>st'. create_surface [[Configure 17 0 300 200]] started
               = Inr ([[Configure 17 0 300 200]], st')
          \<and> native_windows (trace st') = [(250, 250), (250, 250)]
          \<and> \<not> configured (win st')"
    using t3 env nw cf by (simp add: started_fields)
  show ?thesis
    using a b c p r n nw env by (simp add: started_fields final_state_inbox_def)
qed

end
